theory Spec2Isabelle
  imports Main "HOL-Library.Log_Nat" "HOL-Library.AList"
begin

section \<open>Values shared by the middleware\<close>

text \<open>
  JavaScript strings are modelled as \<open>string\<close>; a \<open>char\<close> stands for one code unit
  below 256. Strings with code units from 256 on are outside the model: most of those
  units behave like the characters from 128 to 255 that are neither letters nor white
  space, but some are white space for \<open>parseInt\<close> and \<open>\s\<close>, and \<open>toLowerCase\<close> maps
  the Kelvin sign to \<open>k\<close>.

  A middleware either hands the request to the next stage or answers it itself with a
  status code and a JSON body \<open>{error, message, [retryAfter]}\<close>. The calls to the logger
  write to an external sink, decide nothing and are taken not to throw; they are left out.
\<close>

datatype js_error = TypeError

datatype response =
  Response (status: nat) (error: string) (message: string) (retryAfter: "nat option")

datatype outcome = Next | Send response

record identity =
  user_id :: int
  user_role :: string

section \<open>rbac.middleware.js: the role registry\<close>

record role =
  permissions :: "string list"
  description :: string

definition USERS_CREATE :: string where "USERS_CREATE = ''users:create''"
definition USERS_READ :: string where "USERS_READ = ''users:read''"
definition USERS_UPDATE :: string where "USERS_UPDATE = ''users:update''"
definition USERS_DELETE :: string where "USERS_DELETE = ''users:delete''"
definition USERS_READ_ALL :: string where "USERS_READ_ALL = ''users:read:all''"
definition USERS_UPDATE_ANY :: string where "USERS_UPDATE_ANY = ''users:update:any''"
definition USERS_DELETE_ANY :: string where "USERS_DELETE_ANY = ''users:delete:any''"
definition PROFILE_READ :: string where "PROFILE_READ = ''profile:read''"
definition PROFILE_UPDATE :: string where "PROFILE_UPDATE = ''profile:update''"
definition ADMIN_PANEL :: string where "ADMIN_PANEL = ''admin:panel''"
definition ADMIN_LOGS :: string where "ADMIN_LOGS = ''admin:logs''"
definition ADMIN_SYSTEM :: string where "ADMIN_SYSTEM = ''admin:system''"

text \<open>The own properties of the object literal \<open>ROLES\<close>, in the order of the source.\<close>

definition ROLES :: "(string \<times> role) list" where
  "ROLES =
    [(''guest'',
        \<lparr>permissions = [], description = ''Guest user with no permissions''\<rparr>),
     (''user'',
        \<lparr>permissions = [PROFILE_READ, PROFILE_UPDATE, USERS_READ],
         description = ''Regular user with basic permissions''\<rparr>),
     (''moderator'',
        \<lparr>permissions = [PROFILE_READ, PROFILE_UPDATE, USERS_READ, USERS_READ_ALL,
                        USERS_UPDATE],
         description = ''Moderator with extended user management permissions''\<rparr>),
     (''admin'',
        \<lparr>permissions = [PROFILE_READ, PROFILE_UPDATE, USERS_CREATE, USERS_READ,
                        USERS_UPDATE, USERS_DELETE, USERS_READ_ALL, USERS_UPDATE_ANY,
                        USERS_DELETE_ANY, ADMIN_PANEL, ADMIN_LOGS, ADMIN_SYSTEM],
         description = ''Administrator with full permissions''\<rparr>),
     (''superadmin'',
        \<lparr>permissions = [''*''],
         description = ''Super administrator with unrestricted access''\<rparr>)]"

text \<open>
  \<open>ROLES[userRole]\<close> is a property read on an ordinary object: a name that is not an own
  property is looked up on \<open>Object.prototype\<close>, whose members (functions, and the
  prototype object itself under \<open>__proto__\<close>) are all truthy and have no \<open>permissions\<close>
  property.
\<close>

definition object_prototype_keys :: "string list" where
  "object_prototype_keys =
    [''constructor'', ''hasOwnProperty'', ''isPrototypeOf'', ''propertyIsEnumerable'',
     ''toLocaleString'', ''toString'', ''valueOf'', ''__proto__'', ''__defineGetter__'',
     ''__defineSetter__'', ''__lookupGetter__'', ''__lookupSetter__'']"

datatype 'a property = Own 'a | Inherited | Undefined

definition get_property :: "(string \<times> 'a) list \<Rightarrow> string \<Rightarrow> 'a property" where
  "get_property obj key =
     (case map_of obj key of
        Some v \<Rightarrow> Own v
      | None \<Rightarrow> if key \<in> set object_prototype_keys then Inherited else Undefined)"

text \<open>
  \<open>hasPermission\<close>: \<open>if (!role) return false\<close> catches only the undefined lookup. On an
  inherited member \<open>role.permissions\<close> is undefined and \<open>.includes\<close> throws a TypeError.
\<close>

definition hasPermission :: "string \<Rightarrow> string \<Rightarrow> js_error + bool" where
  "hasPermission userRole requiredPermission =
     (case get_property ROLES userRole of
        Undefined \<Rightarrow> Inr False
      | Inherited \<Rightarrow> Inl TypeError
      | Own role \<Rightarrow>
          if ''*'' \<in> set (permissions role) then Inr True
          else Inr (requiredPermission \<in> set (permissions role)))"

text \<open>
  \<open>Array.prototype.some\<close> and \<open>every\<close> call the callback from left to right and stop at
  the first element that decides; an exception of the callback ends the call.
\<close>

fun some :: "('a \<Rightarrow> js_error + bool) \<Rightarrow> 'a list \<Rightarrow> js_error + bool" where
  "some f [] = Inr False"
| "some f (x # xs) =
     (case f x of Inl e \<Rightarrow> Inl e | Inr b \<Rightarrow> if b then Inr True else some f xs)"

fun every :: "('a \<Rightarrow> js_error + bool) \<Rightarrow> 'a list \<Rightarrow> js_error + bool" where
  "every f [] = Inr True"
| "every f (x # xs) =
     (case f x of Inl e \<Rightarrow> Inl e | Inr b \<Rightarrow> if b then every f xs else Inr False)"

definition hasAnyPermission :: "string \<Rightarrow> string list \<Rightarrow> js_error + bool" where
  "hasAnyPermission userRole requiredPermissions =
     some (\<lambda>permission. hasPermission userRole permission) requiredPermissions"

definition hasAllPermissions :: "string \<Rightarrow> string list \<Rightarrow> js_error + bool" where
  "hasAllPermissions userRole requiredPermissions =
     every (\<lambda>permission. hasPermission userRole permission) requiredPermissions"

section \<open>rbac.middleware.js: the guards\<close>

text \<open>
  What the guards read of a request: the identity attached upstream (absent when no
  authentication ran) and the path parameters, which Express delivers as strings.
\<close>

record guarded_request =
  user :: "identity option"
  params :: "(string \<times> string) list"

definition authentication_required :: response where
  "authentication_required =
     Response 401 ''Authentication required''
       ''You must be logged in to access this resource'' None"

definition permission_check_error :: response where
  "permission_check_error =
     Response 500 ''Internal server error'' ''Error checking permissions'' None"

fun join :: "string \<Rightarrow> string list \<Rightarrow> string" where
  "join sep [] = []"
| "join sep [x] = x"
| "join sep (x # y # ys) = x @ sep @ join sep (y # ys)"

definition requirePermission :: "string \<Rightarrow> guarded_request \<Rightarrow> outcome" where
  "requirePermission requiredPermission req =
     (case user req of
        None \<Rightarrow> Send authentication_required
      | Some u \<Rightarrow>
          (case hasPermission (user_role u) requiredPermission of
             Inl e \<Rightarrow> Send permission_check_error
           | Inr granted \<Rightarrow>
               if \<not> granted then
                 Send (Response 403 ''Access denied''
                   (''Insufficient permissions. Required: '' @ requiredPermission) None)
               else Next))"

definition requireAnyPermission :: "string list \<Rightarrow> guarded_request \<Rightarrow> outcome" where
  "requireAnyPermission requiredPermissions req =
     (case user req of
        None \<Rightarrow> Send authentication_required
      | Some u \<Rightarrow>
          (case hasAnyPermission (user_role u) requiredPermissions of
             Inl e \<Rightarrow> Send permission_check_error
           | Inr granted \<Rightarrow>
               if \<not> granted then
                 Send (Response 403 ''Access denied''
                   (''Insufficient permissions. Required any of: ''
                      @ join '', '' requiredPermissions) None)
               else Next))"

definition requireAllPermissions :: "string list \<Rightarrow> guarded_request \<Rightarrow> outcome" where
  "requireAllPermissions requiredPermissions req =
     (case user req of
        None \<Rightarrow> Send authentication_required
      | Some u \<Rightarrow>
          (case hasAllPermissions (user_role u) requiredPermissions of
             Inl e \<Rightarrow> Send permission_check_error
           | Inr granted \<Rightarrow>
               if \<not> granted then
                 Send (Response 403 ''Access denied''
                   (''Insufficient permissions. Required all of: ''
                      @ join '', '' requiredPermissions) None)
               else Next))"

section \<open>JavaScript numbers and \<open>parseInt\<close>\<close>

text \<open>
  A Number is a double. The numbers met here are NaN, the infinities and finite values;
  a finite double is kept as the rational it denotes (the sign of zero is dropped: \<open>-0\<close>
  and \<open>+0\<close> compare equal under \<open>===\<close>, \<open>!==\<close> and \<open>>\<close>).
\<close>

datatype number = NaN | PosInfinity | NegInfinity | Num rat

definition pow2 :: "int \<Rightarrow> rat" where
  "pow2 e = (if 0 \<le> e then 2 ^ nat e else 1 / 2 ^ nat (- e))"

text \<open>The integer \<open>e\<close> with \<open>2^e \<le> a < 2^(e+1)\<close>, for a positive rational \<open>a\<close>.\<close>

definition floor_log2 :: "rat \<Rightarrow> int" where
  "floor_log2 a =
     (let (p, q) = quotient_of a; d = bitlen p - bitlen q
      in if pow2 d \<le> a then d else d - 1)"

definition round_half_even :: "rat \<Rightarrow> int" where
  "round_half_even y =
     (let f = \<lfloor>y\<rfloor>; r = y - of_int f
      in if r < 1 / 2 then f
         else if 1 / 2 < r then f + 1
         else if even f then f else f + 1)"

text \<open>
  The Number value of a real: the nearest double, ties to the even significand; 53
  significant bits, least exponent \<open>-1074\<close>, and an infinity when the rounded value
  reaches \<open>2^1024\<close> (its binary exponent \<open>floor_log2\<close> is 1024 or more).
\<close>

definition toDouble :: "rat \<Rightarrow> number" where
  "toDouble x =
     (if x = 0 then Num 0
      else
        let a = \<bar>x\<bar>;
            e = max (floor_log2 a - 52) (- 1074);
            r = of_int (round_half_even (a / pow2 e)) * pow2 e
        in if 1024 \<le> floor_log2 r then (if x < 0 then NegInfinity else PosInfinity)
           else Num (if x < 0 then - r else r))"

text \<open>
  White space that \<open>parseInt\<close> skips and \<open>\s\<close> matches: tab, line feed, vertical tab,
  form feed, carriage return, space and no-break space (among the code units below 256).
\<close>

definition is_white_space :: "char \<Rightarrow> bool" where
  "is_white_space c = (c \<in> set [CHR 0x09, CHR 0x0A, CHR 0x0B, CHR 0x0C, CHR 0x0D,
                                 CHR 0x20, CHR 0xA0])"

text \<open>The value of a digit in radix up to 36; 36 for a character that is no digit.\<close>

definition digit_value :: "char \<Rightarrow> int" where
  "digit_value c =
     (let n = (of_char c :: int)
      in if 48 \<le> n \<and> n \<le> 57 then n - 48
         else if 97 \<le> n \<and> n \<le> 122 then n - 87
         else if 65 \<le> n \<and> n \<le> 90 then n - 55
         else 36)"

definition radix_value :: "int \<Rightarrow> string \<Rightarrow> int" where
  "radix_value R Z = foldl (\<lambda>acc c. acc * R + digit_value c) 0 Z"

text \<open>
  \<open>parseInt(string)\<close> with no radix: skip leading white space, take a sign, take a
  \<open>0x\<close>/\<open>0X\<close> prefix as radix 16 and radix 10 otherwise, read the longest run of
  digits, and answer NaN when that run is empty.
\<close>

definition parseInt :: "string \<Rightarrow> number" where
  "parseInt inputString =
     (let S = dropWhile is_white_space inputString;
          sign = (case S of c # cs \<Rightarrow> if c = CHR ''-'' then - 1 else 1 | [] \<Rightarrow> (1::int));
          S1 = (case S of c # cs \<Rightarrow> if c = CHR ''+'' \<or> c = CHR ''-'' then cs else S
                | [] \<Rightarrow> S);
          (R, S2) = (case S1 of
                       c0 # c1 # cs \<Rightarrow>
                         if c0 = CHR ''0'' \<and> (c1 = CHR ''x'' \<or> c1 = CHR ''X'')
                         then (16, cs) else (10, S1)
                     | _ \<Rightarrow> (10, S1));
          Z = takeWhile (\<lambda>c. digit_value c < R) S2
      in if Z = [] then NaN
         else toDouble (of_int (sign * radix_value R Z)))"

text \<open>\<open>ToString\<close> of a property that may be missing: \<open>undefined\<close> becomes "undefined".\<close>

definition ToString :: "string option \<Rightarrow> string" where
  "ToString v = (case v of None \<Rightarrow> ''undefined'' | Some s \<Rightarrow> s)"

section \<open>rbac.middleware.js: ownership\<close>

text \<open>
  \<open>req.params[resourceIdParam]\<close> is the string Express matched, or undefined. (A name
  inherited from \<open>Object.prototype\<close> reads a function or an object, whose string form has
  no numeric prefix: \<open>parseInt\<close> answers NaN for it as it does for "undefined".)
  \<open>identity.id\<close> is an integer; \<open>!==\<close> compares it with the parsed Number. Nothing in
  the \<open>try\<close> block throws on such a request, so the \<open>catch\<close> (500) has no branch here.
\<close>

definition requireOwnership :: "string \<Rightarrow> guarded_request \<Rightarrow> outcome" where
  "requireOwnership resourceIdParam req =
     (case user req of
        None \<Rightarrow> Send authentication_required
      | Some u \<Rightarrow>
          let resourceId = map_of (params req) resourceIdParam
          in if user_role u = ''admin'' \<or> user_role u = ''superadmin'' then Next
             else if parseInt (ToString resourceId) \<noteq> Num (of_int (user_id u)) then
               Send (Response 403 ''Access denied''
                 ''You can only access your own resources'' None)
             else Next)"

section \<open>auth.middleware.js: the size-string parser\<close>

text \<open>
  \<open>String.prototype.toLowerCase\<close> on the code units below 256: the ASCII capitals and
  the Latin-1 capitals (\<open>0xC0\<close> to \<open>0xDE\<close> without the multiplication sign \<open>0xD7\<close>).
\<close>

definition lower_char :: "char \<Rightarrow> char" where
  "lower_char c =
     (let n = (of_char c :: nat)
      in if (65 \<le> n \<and> n \<le> 90) \<or> (192 \<le> n \<and> n \<le> 222 \<and> n \<noteq> 215)
         then char_of (n + 32) else c)"

definition toLowerCase :: "string \<Rightarrow> string" where
  "toLowerCase s = map lower_char s"

definition is_digit :: "char \<Rightarrow> bool" where
  "is_digit c = (let n = (of_char c :: nat) in 48 \<le> n \<and> n \<le> 57)"

definition is_lower_letter :: "char \<Rightarrow> bool" where
  "is_lower_letter c = (let n = (of_char c :: nat) in 97 \<le> n \<and> n \<le> 122)"

text \<open>
  The match of \<open>/^(\d+(?:\.\d+)?)\s*([a-z]+)?$/\<close>: the two capture groups, the second
  undefined (\<open>None\<close>) when no unit is written; \<open>None\<close> for no match. Every repetition is
  greedy, and giving characters back never helps, since the character after a run cannot
  start what follows the run in the pattern.
\<close>

definition size_match :: "string \<Rightarrow> (string \<times> string option) option" where
  "size_match s =
     (let ds = takeWhile is_digit s; r1 = dropWhile is_digit s
      in if ds = [] then None
         else
           let (num, r2) =
                 (case r1 of
                    c # r \<Rightarrow>
                      if c = CHR ''.'' \<and> takeWhile is_digit r \<noteq> []
                      then (ds @ c # takeWhile is_digit r, dropWhile is_digit r)
                      else (ds, r1)
                  | [] \<Rightarrow> (ds, r1));
               r3 = dropWhile is_white_space r2;
               us = takeWhile is_lower_letter r3;
               r4 = dropWhile is_lower_letter r3
           in if r4 \<noteq> [] then None
              else Some (num, if us = [] then None else Some us))"

text \<open>
  \<open>parseFloat\<close> of a first capture group, that is of digits with an optional fraction:
  the double nearest to the decimal.
\<close>

definition parseFloat :: "string \<Rightarrow> number" where
  "parseFloat num =
     (let ds = takeWhile is_digit num;
          fs = (case dropWhile is_digit num of c # r \<Rightarrow> takeWhile is_digit r | [] \<Rightarrow> [])
      in toDouble (of_int (radix_value 10 ds)
                   + of_int (radix_value 10 fs) / 10 ^ length fs))"

text \<open>The product of a Number and a positive finite factor, rounded as a double product is.\<close>

definition times :: "number \<Rightarrow> rat \<Rightarrow> number" where
  "times x u = (case x of Num v \<Rightarrow> toDouble (v * u) | other \<Rightarrow> other)"

definition units :: "(string \<times> rat) list" where
  "units = [(''b'', 1), (''kb'', 1024), (''mb'', 1024 * 1024), (''gb'', 1024 * 1024 * 1024)]"

text \<open>
  \<open>units[unit] || 1\<close> is again a property read on an object literal: an own property
  gives its factor, an undefined one the factor 1, and a member of \<open>Object.prototype\<close>
  (of the lower-case names only "constructor") a function, whose product with a number
  is NaN.
\<close>

definition parseSize :: "string \<Rightarrow> number" where
  "parseSize size_str =
     (case size_match (toLowerCase size_str) of
        None \<Rightarrow> Num 0
      | Some (num, unit_opt) \<Rightarrow>
          let unit = (case unit_opt of None \<Rightarrow> ''b'' | Some u \<Rightarrow> u)
          in case get_property units unit of
               Own factor \<Rightarrow> times (parseFloat num) factor
             | Inherited \<Rightarrow> NaN
             | Undefined \<Rightarrow> times (parseFloat num) 1)"

text \<open>
  The strings the pattern of \<open>parseSize\<close> describes, written as a grammar: digits, an
  optional fraction (a dot and digits), white space, lower-case letters.
\<close>

definition size_grammar :: "string \<Rightarrow> bool" where
  "size_grammar s =
     (\<exists>ds fr ws us.
        s = ds @ fr @ ws @ us
      \<and> ds \<noteq> [] \<and> list_all is_digit ds
      \<and> (fr = [] \<or> (\<exists>fs. fr = CHR ''.'' # fs \<and> fs \<noteq> [] \<and> list_all is_digit fs))
      \<and> list_all is_white_space ws
      \<and> list_all is_lower_letter us)"

section \<open>auth.middleware.js: requests and JSON-like values\<close>

text \<open>
  The values a body parser, the query parser and the router put on a request: null,
  booleans, numbers, strings, arrays and objects (own properties in the order
  \<open>Object.entries\<close> lists them). A part that no parser filled in is undefined (\<open>None\<close>).
\<close>

datatype json =
    JNull
  | JBool bool
  | JNumber rat
  | JString string
  | JArray "json list"
  | JObject "(string \<times> json) list"

record request = guarded_request +
  ip :: string
  query :: "json option"
  body :: "json option"
  user_agent :: "string option"
  referer :: "string option"

section \<open>auth.middleware.js: the suspicious activity detector\<close>

text \<open>
  The four patterns are regular expression literals evaluated inside the middleware, so
  every request gets fresh objects with \<open>lastIndex = 0\<close>. A failed \<open>test\<close> of a global
  pattern resets \<open>lastIndex\<close> to 0, and the first successful \<open>test\<close> ends the whole scan
  with \<open>true\<close>; so every \<open>test\<close> searches its string from the start, and a pattern is
  modelled by the set of strings in which it matches somewhere.

  \<open>search P [] s\<close> tries every position of \<open>s\<close>; \<open>P\<close> sees the characters already passed
  (the nearest first) and the rest. \<open>\b\<close> holds where exactly one of the neighbours is a
  word character. Under the flag \<open>i\<close> an ASCII letter of a pattern matches that letter in
  either case and no other code unit.
\<close>

definition markup_metacharacters :: string where
  "markup_metacharacters = ''<>'' @ [CHR 0x27, CHR 0x22] @ ''%;()&+''"

definition is_word_char :: "char \<Rightarrow> bool" where
  "is_word_char c =
     (let n = (of_char c :: nat)
      in (48 \<le> n \<and> n \<le> 57) \<or> (65 \<le> n \<and> n \<le> 90) \<or> (97 \<le> n \<and> n \<le> 122) \<or> n = 95)"

definition ascii_lower :: "char \<Rightarrow> char" where
  "ascii_lower c =
     (let n = (of_char c :: nat) in if 65 \<le> n \<and> n \<le> 90 then char_of (n + 32) else c)"

fun search :: "(string \<Rightarrow> string \<Rightarrow> bool) \<Rightarrow> string \<Rightarrow> string \<Rightarrow> bool" where
  "search P seen [] = P seen []"
| "search P seen (c # cs) = (P seen (c # cs) \<or> search P (c # seen) cs)"

definition starts_with :: "string \<Rightarrow> string \<Rightarrow> bool" where
  "starts_with lit rest = (take (length lit) rest = lit)"

definition starts_with_ci :: "string \<Rightarrow> string \<Rightarrow> bool" where
  "starts_with_ci lit rest = (map ascii_lower (take (length lit) rest) = lit)"

definition word_boundary :: "string \<Rightarrow> string \<Rightarrow> bool" where
  "word_boundary seen rest =
     ((case seen of [] \<Rightarrow> False | c # cs \<Rightarrow> is_word_char c)
      \<noteq> (case rest of [] \<Rightarrow> False | c # cs \<Rightarrow> is_word_char c))"

definition whole_word_ci :: "string \<Rightarrow> string \<Rightarrow> string \<Rightarrow> bool" where
  "whole_word_ci kw seen rest =
     (word_boundary seen rest \<and> starts_with_ci kw rest
      \<and> word_boundary (rev (take (length kw) rest) @ seen) (drop (length kw) rest))"

definition sql_keywords :: "string list" where
  "sql_keywords = [''union'', ''select'', ''drop'', ''delete'', ''insert'', ''update'']"

definition script_keywords :: "string list" where
  "script_keywords = [''script'', ''javascript'', ''vbscript'', ''onload'', ''onerror'']"

definition suspiciousPatterns :: "(string \<Rightarrow> bool) list" where
  "suspiciousPatterns =
     [\<lambda>str. list_ex (\<lambda>c. c \<in> set markup_metacharacters) str,
      \<lambda>str. list_ex (\<lambda>kw. search (whole_word_ci kw) [] str) sql_keywords,
      \<lambda>str. search (\<lambda>seen rest. starts_with ''../'' rest
                                  \<or> starts_with [CHR ''.'', CHR ''.'', CHR 0x5C] rest) [] str,
      \<lambda>str. list_ex (\<lambda>kw. search (\<lambda>seen rest. starts_with_ci kw rest) [] str)
               script_keywords]"

definition checkString :: "string \<Rightarrow> bool" where
  "checkString str = list_ex (\<lambda>pattern. pattern str) suspiciousPatterns"

text \<open>
  \<open>checkObject\<close> walks \<open>Object.entries(obj || {})\<close>: the properties of an object, the
  elements of an array, the characters of a string (each a one-character string), and
  nothing for numbers, booleans, null and undefined. \<open>checkValue\<close> is the body of the
  loop for one value.
\<close>

fun checkObject :: "json \<Rightarrow> bool"
  and checkValue :: "json \<Rightarrow> bool"
  and checkProperties :: "(string \<times> json) list \<Rightarrow> bool"
  and checkElements :: "json list \<Rightarrow> bool" where
  "checkObject (JObject props) = checkProperties props"
| "checkObject (JArray elems) = checkElements elems"
| "checkObject (JString str) = list_ex (\<lambda>c. checkString [c]) str"
| "checkObject JNull = False"
| "checkObject (JBool b) = False"
| "checkObject (JNumber n) = False"
| "checkValue (JString str) = checkString str"
| "checkValue (JObject props) = checkObject (JObject props)"
| "checkValue (JArray elems) = checkObject (JArray elems)"
| "checkValue JNull = False"
| "checkValue (JBool b) = False"
| "checkValue (JNumber n) = False"
| "checkProperties [] = False"
| "checkProperties ((key, v) # props) = (checkValue v \<or> checkProperties props)"
| "checkElements [] = False"
| "checkElements (v # elems) = (checkValue v \<or> checkElements elems)"


text \<open>\<open>req.params\<close> as the object it is: every value a string.\<close>

definition params_object :: "(string \<times> string) list \<Rightarrow> json" where
  "params_object ps = JObject (map (\<lambda>(key, v). (key, JString v)) ps)"

definition checkObject_of :: "json option \<Rightarrow> bool" where
  "checkObject_of obj = (case obj of None \<Rightarrow> False | Some v \<Rightarrow> checkObject v)"

text \<open>\<open>req.get(h) && checkString(req.get(h))\<close>: a missing or empty header is falsy.\<close>

definition checkHeader :: "string option \<Rightarrow> bool" where
  "checkHeader h = (case h of None \<Rightarrow> False | Some v \<Rightarrow> v \<noteq> [] \<and> checkString v)"

definition suspiciousActivityDetector :: "request \<Rightarrow> outcome" where
  "suspiciousActivityDetector req =
     (let suspicious =
            (checkObject_of (body req)
             \<or> checkObject_of (query req)
             \<or> checkObject (params_object (params req))
             \<or> checkHeader (user_agent req)
             \<or> checkHeader (referer req))
      in if suspicious then
           Send (Response 400 ''Bad Request'' ''Request contains suspicious content'' None)
         else Next)"

text \<open>
  The strings a value contains at any depth, and the threat patterns as the spec names
  them: markup metacharacters, SQL keywords as whole words, path traversal sequences,
  script keywords; letters in either case.
\<close>

fun all_strings :: "json \<Rightarrow> string list" where
  "all_strings (JString str) = [str]"
| "all_strings (JArray elems) = concat (map all_strings elems)"
| "all_strings (JObject props) = concat (map (\<lambda>p. all_strings (snd p)) props)"
| "all_strings JNull = []"
| "all_strings (JBool b) = []"
| "all_strings (JNumber n) = []"

definition contained_strings :: "json \<Rightarrow> string list" where
  "contained_strings v = (case v of JString str \<Rightarrow> [] | other \<Rightarrow> all_strings other)"

definition contains_metacharacter :: "string \<Rightarrow> bool" where
  "contains_metacharacter s = (\<exists>c. c \<in> set s \<and> c \<in> set markup_metacharacters)"

definition contains_sql_keyword :: "string \<Rightarrow> bool" where
  "contains_sql_keyword s =
     (\<exists>pre mid post kw.
        s = pre @ mid @ post \<and> kw \<in> set sql_keywords \<and> map ascii_lower mid = kw
      \<and> (pre = [] \<or> \<not> is_word_char (last pre))
      \<and> (post = [] \<or> \<not> is_word_char (hd post)))"

definition contains_path_traversal :: "string \<Rightarrow> bool" where
  "contains_path_traversal s =
     (\<exists>pre post. s = pre @ ''../'' @ post \<or> s = pre @ [CHR ''.'', CHR ''.'', CHR 0x5C] @ post)"

definition contains_script_keyword :: "string \<Rightarrow> bool" where
  "contains_script_keyword s =
     (\<exists>pre mid post kw.
        s = pre @ mid @ post \<and> kw \<in> set script_keywords \<and> map ascii_lower mid = kw)"

definition threat :: "string \<Rightarrow> bool" where
  "threat s = (contains_metacharacter s \<or> contains_sql_keyword s
               \<or> contains_path_traversal s \<or> contains_script_keyword s)"

section \<open>auth.middleware.js: rate limiting\<close>

text \<open>
  The source hands its options to the \<open>express-rate-limit\<close> package, which is not among
  the source files. A bucket is the spec's RateLimitBucket, kept per key: the count and
  the start of the window, in milliseconds. Of the options the source passes, the window,
  the maximum, the key generator and the handler decide the outcome (the \<open>message\<close>
  option is what the package's own handler would send, and the two header switches only
  add response headers).
\<close>

record bucket =
  count :: nat
  windowStart :: nat

type_synonym store = "string \<rightharpoonup> bucket"

record options =
  windowMs :: nat
  max_limit :: nat
  keyGenerator :: "request \<Rightarrow> string"
  handler :: "request \<Rightarrow> response"

text \<open>
  Modelled from the spec: the middleware that \<open>rateLimit(options)\<close> of the
  \<open>express-rate-limit\<close> package returns, which is missing from the source files. Section
  4.5 of the spec and the state machine that closes section 4 give its behaviour: a
  request for a key with no bucket, or with a bucket whose window has elapsed
  (\<open>now \<ge> windowStart + windowDuration\<close>), starts a fresh bucket with count 1 and
  proceeds; any other request increments the count, and is answered by the handler when
  the new count exceeds the maximum and proceeds otherwise.
\<close>

definition rateLimit :: "options \<Rightarrow> nat \<Rightarrow> request \<Rightarrow> store \<Rightarrow> outcome \<times> store" where
  "rateLimit opts now req buckets =
     (let key = keyGenerator opts req;
          fresh = (Next, buckets(key \<mapsto> \<lparr>count = 1, windowStart = now\<rparr>))
      in case buckets key of
           None \<Rightarrow> fresh
         | Some b \<Rightarrow>
             if windowStart b + windowMs opts \<le> now then fresh
             else
               let b' = b\<lparr>count := count b + 1\<rparr>
               in (if max_limit opts < count b' then Send (handler opts req) else Next,
                   buckets(key \<mapsto> b')))"

text \<open>
  From the source: the key and the handler that \<open>createRateLimiter\<close> passes.
  \<open>req.user?.id || 'anonymous'\<close> takes "anonymous" when no identity is attached and also
  when the id is 0; an id is written in decimal (as JavaScript does below \<open>10^21\<close>). \<open>ip\<close>
  stands for \<open>req.ip || req.connection.remoteAddress\<close>.
\<close>

function decimal :: "nat \<Rightarrow> string" where
  "decimal n = (if n < 10 then [char_of (48 + n)] else decimal (n div 10) @ [char_of (48 + n mod 10)])"
  by pat_completeness auto
termination
  by (relation "measure id") auto

declare decimal.simps [simp del]

definition number_to_string :: "int \<Rightarrow> string" where
  "number_to_string i = (if i < 0 then CHR ''-'' # decimal (nat (- i)) else decimal (nat i))"

definition rate_limit_key :: "request \<Rightarrow> string" where
  "rate_limit_key req =
     (let userId = (case user req of
                      None \<Rightarrow> ''anonymous''
                    | Some u \<Rightarrow> if user_id u = 0 then ''anonymous''
                               else number_to_string (user_id u))
      in ip req @ '':'' @ userId)"

text \<open>\<open>Math.ceil(windowMs / 1000)\<close> for a whole number of milliseconds.\<close>

definition ceil_seconds :: "nat \<Rightarrow> nat" where
  "ceil_seconds ms = (ms + 999) div 1000"

definition rate_limit_handler :: "nat \<Rightarrow> string \<Rightarrow> request \<Rightarrow> response" where
  "rate_limit_handler window_ms msg req =
     Response 429 ''Rate limit exceeded'' msg (Some (ceil_seconds window_ms))"

definition createRateLimiter ::
  "nat \<Rightarrow> nat \<Rightarrow> string \<Rightarrow> nat \<Rightarrow> request \<Rightarrow> store \<Rightarrow> outcome \<times> store" where
  "createRateLimiter window_ms max_requests msg =
     rateLimit \<lparr>windowMs = window_ms, max_limit = max_requests,
                keyGenerator = rate_limit_key,
                handler = rate_limit_handler window_ms msg\<rparr>"

definition authRateLimit :: "nat \<Rightarrow> request \<Rightarrow> store \<Rightarrow> outcome \<times> store" where
  "authRateLimit =
     createRateLimiter (15 * 60 * 1000) 5
       ''Too many authentication attempts, please try again later''"

definition apiRateLimit :: "nat \<Rightarrow> request \<Rightarrow> store \<Rightarrow> outcome \<times> store" where
  "apiRateLimit =
     createRateLimiter (15 * 60 * 1000) 100 ''Too many API requests, please try again later''"

definition strictRateLimit :: "nat \<Rightarrow> request \<Rightarrow> store \<Rightarrow> outcome \<times> store" where
  "strictRateLimit = createRateLimiter (60 * 1000) 10 ''Too many requests, please slow down''"

text \<open>
  A run of one limiter over requests that arrive at the given times, and what the spec
  calls the seconds remaining in the window of a bucket.
\<close>

fun run_limiter ::
  "(nat \<Rightarrow> request \<Rightarrow> store \<Rightarrow> outcome \<times> store) \<Rightarrow> (nat \<times> request) list \<Rightarrow> store
     \<Rightarrow> outcome list \<times> store" where
  "run_limiter limiter [] buckets = ([], buckets)"
| "run_limiter limiter ((now, req) # rest) buckets =
     (let (out, buckets') = limiter now req buckets;
          (outs, buckets'') = run_limiter limiter rest buckets'
      in (out # outs, buckets''))"

definition seconds_remaining :: "nat \<Rightarrow> bucket \<Rightarrow> nat \<Rightarrow> nat" where
  "seconds_remaining window_ms b now = ceil_seconds (windowStart b + window_ms - now)"

section \<open>auth.middleware.js: input sanitization\<close>










text \<open>
  \<open>stripCommentTag\<close>: what lies between \<open><!--\<close> and the next \<open>-->\<close> is dropped, and an
  unclosed comment is dropped to the end. \<open>skipComment\<close> looks for the \<open>-->\<close>, counting
  the hyphens just read.
\<close>

fun stripCommentTag :: "string \<Rightarrow> string"
  and skipComment :: "nat \<Rightarrow> string \<Rightarrow> string"
where
  "stripCommentTag [] = []"
| "stripCommentTag (c # cs) =
     (if starts_with ''<!--'' (c # cs) then skipComment 0 cs else c # stripCommentTag cs)"
| "skipComment hyphens [] = []"
| "skipComment hyphens (c # cs) =
     (if c = CHR ''>'' \<and> 2 \<le> hyphens then stripCommentTag cs
      else skipComment (if c = CHR ''-'' then Suc hyphens else 0) cs)"



















section \<open>Results\<close>

subsection \<open>The role registry\<close>

lemma get_property_superadmin:
  "get_property ROLES ''superadmin'' =
     Own \<lparr>permissions = [''*''],
          description = ''Super administrator with unrestricted access''\<rparr>"
  by (simp add: get_property_def ROLES_def)

text \<open>
  C6: \<open>hasPermission("superadmin", p)\<close> returns true for every permission string \<open>p\<close>,
  listed in the catalog or not.
\<close>

theorem superadmin_has_every_permission:
  "hasPermission ''superadmin'' p = Inr True"
  by (simp add: hasPermission_def get_property_superadmin)

lemma get_property_absent:
  "map_of ROLES r = None \<Longrightarrow> r \<notin> set object_prototype_keys \<Longrightarrow>
     get_property ROLES r = Undefined"
  by (simp add: get_property_def)

lemma hasPermission_absent:
  "map_of ROLES r = None \<Longrightarrow> r \<notin> set object_prototype_keys \<Longrightarrow>
     hasPermission r p = Inr False"
  by (simp add: hasPermission_def get_property_absent)

lemma some_all_false: "(\<And>x. f x = Inr False) \<Longrightarrow> some f xs = Inr False"
  by (induction xs) simp_all

lemma every_first_false: "f x = Inr False \<Longrightarrow> every f (x # xs) = Inr False"
  by simp

lemma map_of_ROLES_ghost: "map_of ROLES ''ghost'' = None"
  by (simp add: ROLES_def)

lemma ghost_not_inherited: "''ghost'' \<notin> set object_prototype_keys"
  by (simp add: object_prototype_keys_def)

text \<open>
  A role name that is no own property of \<open>ROLES\<close> but names a member of
  \<open>Object.prototype\<close> makes \<open>hasPermission\<close> throw instead of returning false.
\<close>

lemma hasPermission_constructor_throws: "hasPermission ''constructor'' p = Inl TypeError"
  by (simp add: hasPermission_def get_property_def ROLES_def object_prototype_keys_def)

text \<open>
  C1, as stated: for every role name absent from the registry \<open>hasAllPermissions\<close> is
  false for every permission list. It fails at the empty list, where \<open>every\<close> never calls
  the check.
\<close>

theorem absent_role_all_of_nothing_granted:
  "map_of ROLES ''ghost'' = None \<and> hasAllPermissions ''ghost'' [] = Inr True"
  by (simp add: map_of_ROLES_ghost hasAllPermissions_def)

text \<open>
  C1, amended: for every role name whose lookup in the registry finds nothing (no own
  property of \<open>ROLES\<close> and no member of \<open>Object.prototype\<close>), \<open>hasPermission\<close> is false
  for every permission, \<open>hasAnyPermission\<close> is false for every permission list, and
  \<open>hasAllPermissions\<close> is false for every non-empty permission list.
\<close>

theorem absent_role_is_denied:
  assumes "map_of ROLES r = None" and "r \<notin> set object_prototype_keys"
  shows "hasPermission r p = Inr False
       \<and> hasAnyPermission r ps = Inr False
       \<and> hasAllPermissions r (q # qs) = Inr False"
proof -
  have denied: "\<And>x. hasPermission r x = Inr False"
    using assms by (rule hasPermission_absent)
  have "hasAnyPermission r ps = Inr False"
    unfolding hasAnyPermission_def by (rule some_all_false) (rule denied)
  moreover have "hasAllPermissions r (q # qs) = Inr False"
    unfolding hasAllPermissions_def by (rule every_first_false) (rule denied)
  ultimately show ?thesis using denied by simp
qed

theorem absent_role_is_denied_witness:
  "hasPermission ''ghost'' ''users:read'' = Inr False
 \<and> hasAnyPermission ''ghost'' [''users:read'', ''admin:panel''] = Inr False
 \<and> hasAllPermissions ''ghost'' [''users:read''] = Inr False"
  using absent_role_is_denied [OF map_of_ROLES_ghost ghost_not_inherited,
      where p = "''users:read''" and ps = "[''users:read'', ''admin:panel'']"
        and q = "''users:read''" and qs = "[]"]
  by simp

subsection \<open>The permission guards\<close>

text \<open>
  C7, as stated: with an identity attached, the guard answers 403 when \<open>hasPermission\<close>
  is false and calls the next stage otherwise. It fails for a role on which
  \<open>hasPermission\<close> throws: the check is not false, and the guard's \<open>catch\<close> answers 500.
\<close>

theorem requirePermission_throwing_check_is_500:
  "hasPermission ''constructor'' ''users:read'' \<noteq> Inr False
 \<and> requirePermission ''users:read''
      \<lparr>user = Some \<lparr>user_id = 1, user_role = ''constructor''\<rparr>, params = []\<rparr>
    = Send (Response 500 ''Internal server error'' ''Error checking permissions'' None)
 \<and> requirePermission ''users:read''
      \<lparr>user = Some \<lparr>user_id = 1, user_role = ''constructor''\<rparr>, params = []\<rparr> \<noteq> Next"
  by (simp add: requirePermission_def hasPermission_constructor_throws
      permission_check_error_def)

text \<open>
  C7, amended: for every permission \<open>p\<close> the guard \<open>requirePermission(p)\<close> answers 401
  when the request carries no identity; with an identity attached it answers 403, the
  message naming \<open>p\<close>, when \<open>hasPermission(identity.role, p)\<close> returns false, calls the
  next stage when it returns true, and answers 500 when it throws.
\<close>

theorem requirePermission_outcomes:
  "(user req = None \<longrightarrow>
      requirePermission p req =
        Send (Response 401 ''Authentication required''
          ''You must be logged in to access this resource'' None))
 \<and> (user req = Some u \<and> hasPermission (user_role u) p = Inr False \<longrightarrow>
      requirePermission p req =
        Send (Response 403 ''Access denied''
          (''Insufficient permissions. Required: '' @ p) None))
 \<and> (user req = Some u \<and> hasPermission (user_role u) p = Inr True \<longrightarrow>
      requirePermission p req = Next)
 \<and> (user req = Some u \<and> hasPermission (user_role u) p = Inl e \<longrightarrow>
      requirePermission p req =
        Send (Response 500 ''Internal server error'' ''Error checking permissions'' None))"
  by (simp add: requirePermission_def authentication_required_def
      permission_check_error_def)

lemma hasPermission_user_delete_any: "hasPermission ''user'' ''users:delete:any'' = Inr False"
  by (simp add: hasPermission_def get_property_def ROLES_def USERS_READ_def
      PROFILE_READ_def PROFILE_UPDATE_def)

lemma hasPermission_admin_delete_any: "hasPermission ''admin'' ''users:delete:any'' = Inr True"
  by (simp add: hasPermission_def get_property_def ROLES_def USERS_DELETE_ANY_def)

theorem requirePermission_outcomes_witness:
  "requirePermission ''users:delete:any'' \<lparr>user = None, params = []\<rparr> =
     Send (Response 401 ''Authentication required''
       ''You must be logged in to access this resource'' None)
 \<and> requirePermission ''users:delete:any''
      \<lparr>user = Some \<lparr>user_id = 7, user_role = ''user''\<rparr>, params = []\<rparr> =
     Send (Response 403 ''Access denied''
       ''Insufficient permissions. Required: users:delete:any'' None)
 \<and> requirePermission ''users:delete:any''
      \<lparr>user = Some \<lparr>user_id = 1, user_role = ''admin''\<rparr>, params = []\<rparr> = Next
 \<and> requirePermission ''users:delete:any''
      \<lparr>user = Some \<lparr>user_id = 3, user_role = ''toString''\<rparr>, params = []\<rparr> =
     Send (Response 500 ''Internal server error'' ''Error checking permissions'' None)"
proof -
  have thrown: "hasPermission ''toString'' ''users:delete:any'' = Inl TypeError"
    by (simp add: hasPermission_def get_property_def ROLES_def object_prototype_keys_def)
  show ?thesis
    using requirePermission_outcomes
        [where req = "\<lparr>user = None, params = []\<rparr>" and p = "''users:delete:any''"]
      requirePermission_outcomes
        [where req = "\<lparr>user = Some \<lparr>user_id = 7, user_role = ''user''\<rparr>, params = []\<rparr>"
           and u = "\<lparr>user_id = 7, user_role = ''user''\<rparr>" and p = "''users:delete:any''"]
      requirePermission_outcomes
        [where req = "\<lparr>user = Some \<lparr>user_id = 1, user_role = ''admin''\<rparr>, params = []\<rparr>"
           and u = "\<lparr>user_id = 1, user_role = ''admin''\<rparr>" and p = "''users:delete:any''"]
      requirePermission_outcomes
        [where req = "\<lparr>user = Some \<lparr>user_id = 3, user_role = ''toString''\<rparr>, params = []\<rparr>"
           and u = "\<lparr>user_id = 3, user_role = ''toString''\<rparr>"
           and p = "''users:delete:any''" and e = TypeError]
    by (simp add: hasPermission_user_delete_any hasPermission_admin_delete_any thrown)
qed

text \<open>
  C9: for every role string, in the registry or not, \<open>hasAllPermissions(r, [])\<close> returns
  true and \<open>hasAnyPermission(r, [])\<close> returns false; so \<open>requireAllPermissions([])\<close> lets
  every request with an identity through, whatever its role, and
  \<open>requireAnyPermission([])\<close> answers each of them 403.
\<close>

theorem empty_permission_lists:
  "hasAllPermissions r [] = Inr True
 \<and> hasAnyPermission r [] = Inr False
 \<and> (user req = Some u \<longrightarrow>
      requireAllPermissions [] req = Next
    \<and> requireAnyPermission [] req =
        Send (Response 403 ''Access denied''
          ''Insufficient permissions. Required any of: '' None))"
  by (simp add: hasAllPermissions_def hasAnyPermission_def requireAllPermissions_def
      requireAnyPermission_def)

theorem empty_permission_lists_witness:
  "hasAllPermissions ''nobody'' [] = Inr True
 \<and> hasAnyPermission ''superadmin'' [] = Inr False
 \<and> requireAllPermissions []
      \<lparr>user = Some \<lparr>user_id = 9, user_role = ''nobody''\<rparr>, params = []\<rparr> = Next
 \<and> requireAnyPermission []
      \<lparr>user = Some \<lparr>user_id = 1, user_role = ''superadmin''\<rparr>, params = []\<rparr> =
     Send (Response 403 ''Access denied''
       ''Insufficient permissions. Required any of: '' None)"
  using empty_permission_lists
      [where r = "''nobody''"
         and req = "\<lparr>user = Some \<lparr>user_id = 9, user_role = ''nobody''\<rparr>, params = []\<rparr>"
         and u = "\<lparr>user_id = 9, user_role = ''nobody''\<rparr>"]
    empty_permission_lists
      [where r = "''superadmin''"
         and req = "\<lparr>user = Some \<lparr>user_id = 1, user_role = ''superadmin''\<rparr>, params = []\<rparr>"
         and u = "\<lparr>user_id = 1, user_role = ''superadmin''\<rparr>"]
  by simp

subsection \<open>Ownership\<close>

lemma parseInt_5: "parseInt ''5'' = Num 5"
  by code_simp

lemma parseInt_6: "parseInt ''6'' = Num 6"
  by code_simp

lemma parseInt_5abc: "parseInt ''5abc'' = Num 5"
  by code_simp

lemma parseInt_undefined: "parseInt ''undefined'' = NaN"
  by code_simp

lemma parseInt_abc: "parseInt ''abc'' = NaN"
  by code_simp

lemma floor_log2_of_int:
  assumes "0 < k"
  shows "floor_log2 (of_int k) = bitlen k - 1"
proof -
  from assms have b: "2 ^ nat (bitlen k - 1) \<le> k" using bitlen_bounds by blast
  from assms have pos: "0 < bitlen k"
    using bitlen_eq_zero_iff [of k] bitlen_nonneg [of k] by linarith
  have "pow2 (bitlen k - 1) = of_int (2 ^ nat (bitlen k - 1))"
    using pos by (simp add: pow2_def)
  also have "\<dots> \<le> of_int k" using b by (simp only: of_int_le_iff)
  finally have "pow2 (bitlen k - 1) \<le> of_int k" .
  moreover have "quotient_of (of_int k) = (k, 1)"
    by (simp add: of_int_rat quotient_of_Fract)
  moreover have "bitlen 1 = 1" by (simp add: bitlen_alt_def)
  ultimately show ?thesis
    by (simp add: floor_log2_def)
qed

lemma round_half_even_of_int: "round_half_even (of_int m) = m"
  by (simp add: round_half_even_def)

lemma toDouble_of_int_pos:
  assumes "0 < k" and "k < 2 ^ 53"
  shows "toDouble (of_int k) = Num (of_int k)"
proof -
  define f where "f = bitlen k - 1"
  from assms(1) have low: "2 ^ nat f \<le> k" and high: "k < 2 ^ nat (f + 1)"
    using bitlen_bounds [of k] by (simp_all add: f_def)
  from assms(1) have f0: "0 \<le> f"
    using bitlen_eq_zero_iff [of k] bitlen_nonneg [of k] by (simp add: f_def)
  have f52: "f \<le> 52"
  proof (rule ccontr)
    assume "\<not> f \<le> 52"
    then have "53 \<le> nat f" by simp
    then have "(2::int) ^ 53 \<le> 2 ^ nat f" by (rule power_increasing) simp
    with low assms(2) show False by simp
  qed
  have fl: "floor_log2 (of_int k) = f" using assms(1) by (simp add: floor_log2_of_int f_def)
  define n where "n = nat (52 - f)"
  have e: "max (f - 52) (- 1074) = - int n" using f0 f52 by (simp add: n_def)
  have p: "pow2 (- int n) = 1 / 2 ^ n" by (simp add: pow2_def)
  have scaled: "of_int k / pow2 (- int n) = (of_int (k * 2 ^ n) :: rat)"
    by (simp add: p)
  have unscaled: "(of_int (k * 2 ^ n) :: rat) * pow2 (- int n) = of_int k"
    by (simp add: p)
  have f1024: "\<not> 1024 \<le> f" using f52 by simp
  show ?thesis
    using assms(1) f1024
    by (simp add: toDouble_def Let_def fl e scaled round_half_even_of_int unscaled
        del: of_int_mult)
qed


lemma toDouble_of_int:
  assumes "\<bar>k\<bar> < 2 ^ 53"
  shows "toDouble (of_int k) = Num (of_int k)"
proof -
  consider "k = 0" | "0 < k" | "k < 0" by linarith
  then show ?thesis
  proof cases
    case 1
    then show ?thesis by (simp add: toDouble_def)
  next
    case 2
    with assms show ?thesis by (simp add: toDouble_of_int_pos)
  next
    case 3
    with assms have pos: "toDouble (of_int (- k)) = Num (of_int (- k))"
      by (intro toDouble_of_int_pos) simp_all
    from 3 have "toDouble (of_int k) =
        (case toDouble (of_int (- k)) of Num v \<Rightarrow> Num (- v) | PosInfinity \<Rightarrow> NegInfinity
         | other \<Rightarrow> other)"
      by (simp add: toDouble_def Let_def)
    with pos show ?thesis by simp
  qed
qed

lemma decimal_digits: "list_all is_digit (decimal n) \<and> decimal n \<noteq> []"
proof (induction n rule: decimal.induct)
  case (1 n)
  show ?case
  proof (cases "n < 10")
    case True
    then have "decimal n = [char_of (48 + n)]" by (simp add: decimal.simps)
    with True show ?thesis by (simp add: is_digit_def)
  next
    case False
    then have "decimal n = decimal (n div 10) @ [char_of (48 + n mod 10)]"
      by (simp add: decimal.simps)
    moreover have "is_digit (char_of (48 + n mod 10))"
      by (simp add: is_digit_def mod_less)
    ultimately show ?thesis using 1 False by simp
  qed
qed


lemma is_digit_cases: "is_digit c \<Longrightarrow> c \<in> set ''0123456789''"
proof -
  assume "is_digit c"
  then have "48 \<le> (of_char c :: nat) \<and> (of_char c :: nat) \<le> 57"
    by (simp add: is_digit_def Let_def)
  then have "(of_char c :: nat) \<in> {48, 49, 50, 51, 52, 53, 54, 55, 56, 57}"
    by simp arith
  then have "(of_char c :: nat) \<in> of_char ` set ''0123456789''" by simp
  then obtain d where "d \<in> set ''0123456789''" and "(of_char c :: nat) = of_char d"
    by blast
  then show ?thesis by (simp only: of_char_eq_iff)
qed

lemma digit_is_plain:
  assumes "is_digit c"
  shows "0 \<le> digit_value c \<and> digit_value c < 10 \<and> \<not> is_white_space c
       \<and> c \<noteq> CHR ''+'' \<and> c \<noteq> CHR ''-'' \<and> c \<noteq> CHR ''x'' \<and> c \<noteq> CHR ''X''"
  using is_digit_cases [OF assms] by (auto simp add: digit_value_def is_white_space_def)

lemma digit_value_char_of: "m < 10 \<Longrightarrow> digit_value (char_of (48 + m)) = int m"
proof -
  assume "m < 10"
  then have "m \<in> {0, 1, 2, 3, 4, 5, 6, 7, 8, 9}" by auto
  moreover have "(of_char c :: int) = int (of_char c)" for c
    by (simp only: of_nat_of_char)
  ultimately show ?thesis by (auto simp add: digit_value_def)
qed

lemma radix_value_snoc: "radix_value R (Z @ [c]) = radix_value R Z * R + digit_value c"
  by (simp add: radix_value_def)

lemma radix_value_decimal: "radix_value 10 (decimal n) = int n"
proof (induction n rule: decimal.induct)
  case (1 n)
  show ?case
  proof (cases "n < 10")
    case True
    then have "decimal n = [] @ [char_of (48 + n)]" by (simp add: decimal.simps)
    then have "radix_value 10 (decimal n) = radix_value 10 [] * 10 + digit_value (char_of (48 + n))"
      by (simp only: radix_value_snoc)
    with True show ?thesis by (simp add: digit_value_char_of radix_value_def)
  next
    case False
    then have "decimal n = decimal (n div 10) @ [char_of (48 + n mod 10)]"
      by (simp add: decimal.simps)
    then have "radix_value 10 (decimal n) =
        radix_value 10 (decimal (n div 10)) * 10 + digit_value (char_of (48 + n mod 10))"
      by (simp only: radix_value_snoc)
    with False 1 have "radix_value 10 (decimal n) = int (n div 10) * 10 + int (n mod 10)"
      by (simp add: digit_value_char_of)
    also have "\<dots> = int n" by presburger
    finally show ?thesis .
  qed
qed

lemma decimal_leading_zero: "decimal n = CHR ''0'' # ds \<Longrightarrow> n = 0 \<and> ds = []"
proof (induction n arbitrary: ds rule: decimal.induct)
  case (1 n)
  show ?case
  proof (cases "n < 10")
    case True
    then have d: "decimal n = [char_of (48 + n)]" by (simp add: decimal.simps)
    with 1(2) have same: "digit_value (char_of (48 + n)) = digit_value (CHR ''0'')"
      and empty: "ds = []"
      by simp_all
    have "digit_value (CHR ''0'') = 0" by (simp add: digit_value_def)
    with same True have "int n = 0" by (simp only: digit_value_char_of)
    with empty show ?thesis by simp
  next
    case False
    then have d: "decimal n = decimal (n div 10) @ [char_of (48 + n mod 10)]"
      by (simp add: decimal.simps)
    obtain e es where es: "decimal (n div 10) = e # es"
      using decimal_digits [of "n div 10"] by (cases "decimal (n div 10)") auto
    with d 1(2) have "decimal (n div 10) = CHR ''0'' # es" by simp
    with 1(1) False have "n div 10 = 0" by blast
    with False show ?thesis by simp
  qed
qed

lemma takeWhile_prefix:
  assumes "list_all P xs" and "case ys of [] \<Rightarrow> True | y # ys' \<Rightarrow> \<not> P y"
  shows "takeWhile P (xs @ ys) = xs"
  using assms by (induction xs) (auto split: list.splits)

lemma parseInt_decimal_prefix:
  assumes small: "n < 2 ^ 53"
    and suffix: "case suffix of [] \<Rightarrow> True
                 | c # cs \<Rightarrow> \<not> digit_value c < 10 \<and> (n = 0 \<longrightarrow> c \<noteq> CHR ''x'' \<and> c \<noteq> CHR ''X'')"
  shows "parseInt (decimal n @ suffix) = Num (of_nat n)"
proof -
  obtain d ds where dec: "decimal n = d # ds" and d: "is_digit d"
    using decimal_digits [of n] by (cases "decimal n") auto
  note plain = digit_is_plain [OF d]
  have digits: "list_all (\<lambda>c. digit_value c < 10) (decimal n)"
    using decimal_digits [of n] digit_is_plain by (auto simp add: list_all_iff)
  have no_hex: "\<not> (d = CHR ''0'' \<and> (case ds @ suffix of [] \<Rightarrow> False
                                       | c1 # cs \<Rightarrow> c1 = CHR ''x'' \<or> c1 = CHR ''X''))"
  proof
    assume h: "d = CHR ''0'' \<and> (case ds @ suffix of [] \<Rightarrow> False
                                  | c1 # cs \<Rightarrow> c1 = CHR ''x'' \<or> c1 = CHR ''X'')"
    with dec have "n = 0 \<and> ds = []" using decimal_leading_zero by blast
    with h suffix show False by (auto split: list.splits)
  qed
  have run: "takeWhile (\<lambda>c. digit_value c < 10) (decimal n @ suffix) = decimal n"
    using digits suffix by (intro takeWhile_prefix) (auto split: list.splits)
  have exact: "toDouble (of_int (radix_value 10 (decimal n))) = Num (of_nat n)"
    using small toDouble_of_int [of "int n"] by (simp add: radix_value_decimal)
  have "parseInt (d # ds @ suffix) = toDouble (of_int (radix_value 10 (decimal n)))"
    using plain no_hex run dec
    by (cases "ds @ suffix") (auto simp add: parseInt_def Let_def)
  with exact dec show ?thesis by simp
qed

lemma digit_value_less_10: "digit_value c < 10 \<longleftrightarrow> is_digit c"
proof
  assume small: "digit_value c < 10"
  have bridge: "(of_char c :: int) = int (of_char c)" by (simp only: of_nat_of_char)
  from small have "48 \<le> (of_char c :: int) \<and> (of_char c :: int) \<le> 57"
    by (auto simp add: digit_value_def Let_def split: if_splits)
  then show "is_digit c" by (simp add: is_digit_def bridge)
next
  assume "is_digit c"
  then show "digit_value c < 10" using digit_is_plain by blast
qed

lemma decimal_5: "decimal 5 = ''5''"
  by code_simp

text \<open>
  C5: \<open>requireOwnership(idParam)\<close> reads the named path parameter and compares its
  \<open>parseInt\<close> with \<open>identity.id\<close>, so that a parameter written in decimal passes exactly
  when it is the number \<open>identity.id\<close>; the roles "admin" and "superadmin" always pass; a
  mismatch is answered 403. For \<open>requireOwnership("id")\<close>: identity \<open>{id: 5, role: "user"}\<close>
  passes with path id "5" and gets 403 with path id "6"; identity
  \<open>{id: 5, role: "admin"}\<close> passes with path id "6".
\<close>

theorem requireOwnership_compares_ids:
  "(user req = Some u \<and> (user_role u = ''admin'' \<or> user_role u = ''superadmin'') \<longrightarrow>
      requireOwnership idParam req = Next)
 \<and> (user req = Some u \<and> user_role u \<noteq> ''admin'' \<and> user_role u \<noteq> ''superadmin''
      \<and> parseInt (ToString (map_of (params req) idParam)) \<noteq> Num (of_int (user_id u)) \<longrightarrow>
      requireOwnership idParam req =
        Send (Response 403 ''Access denied'' ''You can only access your own resources'' None))
 \<and> (user req = Some u \<and> user_role u \<noteq> ''admin'' \<and> user_role u \<noteq> ''superadmin''
      \<and> parseInt (ToString (map_of (params req) idParam)) = Num (of_int (user_id u)) \<longrightarrow>
      requireOwnership idParam req = Next)
 \<and> (user req = Some u \<and> user_role u \<noteq> ''admin'' \<and> user_role u \<noteq> ''superadmin''
      \<and> m < 2 ^ 53 \<and> map_of (params req) idParam = Some (decimal m) \<longrightarrow>
      (requireOwnership idParam req = Next \<longleftrightarrow> int m = user_id u)
      \<and> (int m \<noteq> user_id u \<longrightarrow>
           requireOwnership idParam req =
             Send (Response 403 ''Access denied''
               ''You can only access your own resources'' None)))
 \<and> requireOwnership ''id''
      \<lparr>user = Some \<lparr>user_id = 5, user_role = ''user''\<rparr>, params = [(''id'', ''5'')]\<rparr> = Next
 \<and> requireOwnership ''id''
      \<lparr>user = Some \<lparr>user_id = 5, user_role = ''user''\<rparr>, params = [(''id'', ''6'')]\<rparr> =
     Send (Response 403 ''Access denied'' ''You can only access your own resources'' None)
 \<and> requireOwnership ''id''
      \<lparr>user = Some \<lparr>user_id = 5, user_role = ''admin''\<rparr>, params = [(''id'', ''6'')]\<rparr> = Next"
proof -
  have "parseInt (decimal m) = Num (of_nat m)" if "m < 2 ^ 53"
    using parseInt_decimal_prefix [of m "[]"] that by simp
  then have numeric: "parseInt (decimal m) = Num (of_int (user_id u)) \<longleftrightarrow> int m = user_id u"
    if "m < 2 ^ 53"
    using that by (auto simp add: of_nat_eq_iff [symmetric] simp del: of_nat_eq_iff)
  show ?thesis
    using numeric
    by (auto simp add: requireOwnership_def ToString_def parseInt_5 parseInt_6)
qed

theorem requireOwnership_compares_ids_witness:
  "requireOwnership ''userId''
     \<lparr>user = Some \<lparr>user_id = 2, user_role = ''superadmin''\<rparr>, params = []\<rparr> = Next
 \<and> requireOwnership ''userId''
     \<lparr>user = Some \<lparr>user_id = 5, user_role = ''moderator''\<rparr>,
      params = [(''userId'', ''6'')]\<rparr> =
     Send (Response 403 ''Access denied'' ''You can only access your own resources'' None)
 \<and> requireOwnership ''userId''
     \<lparr>user = Some \<lparr>user_id = 6, user_role = ''moderator''\<rparr>,
      params = [(''userId'', ''6'')]\<rparr> = Next
 \<and> requireOwnership ''userId''
     \<lparr>user = Some \<lparr>user_id = 7, user_role = ''guest''\<rparr>,
      params = [(''userId'', decimal 5)]\<rparr> =
     Send (Response 403 ''Access denied'' ''You can only access your own resources'' None)"
proof -
  let ?denied = "Send (Response 403 ''Access denied''
      ''You can only access your own resources'' None)"
  have a: "requireOwnership ''userId''
     \<lparr>user = Some \<lparr>user_id = 2, user_role = ''superadmin''\<rparr>, params = []\<rparr> = Next"
    using requireOwnership_compares_ids
      [where req = "\<lparr>user = Some \<lparr>user_id = 2, user_role = ''superadmin''\<rparr>, params = []\<rparr>"
         and u = "\<lparr>user_id = 2, user_role = ''superadmin''\<rparr>" and idParam = "''userId''"]
    by simp
  have b: "requireOwnership ''userId''
     \<lparr>user = Some \<lparr>user_id = 5, user_role = ''moderator''\<rparr>,
      params = [(''userId'', ''6'')]\<rparr> = ?denied"
    using requireOwnership_compares_ids
      [where req = "\<lparr>user = Some \<lparr>user_id = 5, user_role = ''moderator''\<rparr>,
                     params = [(''userId'', ''6'')]\<rparr>"
         and u = "\<lparr>user_id = 5, user_role = ''moderator''\<rparr>" and idParam = "''userId''"]
    by (simp add: ToString_def parseInt_6)
  have c: "requireOwnership ''userId''
     \<lparr>user = Some \<lparr>user_id = 6, user_role = ''moderator''\<rparr>,
      params = [(''userId'', ''6'')]\<rparr> = Next"
    using requireOwnership_compares_ids
      [where req = "\<lparr>user = Some \<lparr>user_id = 6, user_role = ''moderator''\<rparr>,
                     params = [(''userId'', ''6'')]\<rparr>"
         and u = "\<lparr>user_id = 6, user_role = ''moderator''\<rparr>" and idParam = "''userId''"]
    by (simp add: ToString_def parseInt_6)
  have d: "requireOwnership ''userId''
     \<lparr>user = Some \<lparr>user_id = 7, user_role = ''guest''\<rparr>,
      params = [(''userId'', decimal 5)]\<rparr> = ?denied"
    using requireOwnership_compares_ids
      [where req = "\<lparr>user = Some \<lparr>user_id = 7, user_role = ''guest''\<rparr>,
                     params = [(''userId'', decimal 5)]\<rparr>"
         and u = "\<lparr>user_id = 7, user_role = ''guest''\<rparr>" and idParam = "''userId''"
         and m = 5]
    by simp
  from a b c d show ?thesis by simp
qed

text \<open>
  C10: for every identity whose role is neither "admin" nor "superadmin",
  \<open>requireOwnership(idParam)\<close> passes exactly when \<open>parseInt\<close> of the path parameter
  equals \<open>identity.id\<close>; so a parameter that writes the id in decimal and goes on with
  something that is no digit passes, as "5abc" does for \<open>identity.id\<close> 5 (for the id 0 the
  next character must not be \<open>x\<close>, which would start a hexadecimal number). When the
  parameter is missing or has no numeric prefix (\<open>parseInt\<close> is NaN) the answer is the
  403, not an exception.
\<close>

theorem requireOwnership_passes_iff_parseInt:
  "(user req = Some u \<and> user_role u \<noteq> ''admin'' \<and> user_role u \<noteq> ''superadmin'' \<longrightarrow>
      (requireOwnership idParam req = Next \<longleftrightarrow>
         parseInt (ToString (map_of (params req) idParam)) = Num (of_int (user_id u)))
    \<and> (parseInt (ToString (map_of (params req) idParam)) \<noteq> Num (of_int (user_id u)) \<longrightarrow>
         requireOwnership idParam req =
           Send (Response 403 ''Access denied''
             ''You can only access your own resources'' None))
    \<and> (map_of (params req) idParam = None
        \<or> parseInt (ToString (map_of (params req) idParam)) = NaN \<longrightarrow>
         requireOwnership idParam req =
           Send (Response 403 ''Access denied''
             ''You can only access your own resources'' None))
    \<and> (0 \<le> user_id u \<and> user_id u < 2 ^ 53
        \<and> map_of (params req) idParam = Some (decimal (nat (user_id u)) @ suffix)
        \<and> (case suffix of [] \<Rightarrow> True
            | c # cs \<Rightarrow> \<not> is_digit c
                       \<and> (user_id u = 0 \<longrightarrow> c \<noteq> CHR ''x'' \<and> c \<noteq> CHR ''X'')) \<longrightarrow>
         requireOwnership idParam req = Next))
 \<and> requireOwnership ''id''
      \<lparr>user = Some \<lparr>user_id = 5, user_role = ''user''\<rparr>, params = [(''id'', ''5abc'')]\<rparr>
     = Next"
proof -
  have prefix: "parseInt (decimal (nat (user_id u)) @ suffix) = Num (of_int (user_id u))"
    if "0 \<le> user_id u" and "user_id u < 2 ^ 53"
      and "case suffix of [] \<Rightarrow> True
           | c # cs \<Rightarrow> \<not> is_digit c
                      \<and> (user_id u = 0 \<longrightarrow> c \<noteq> CHR ''x'' \<and> c \<noteq> CHR ''X'')"
  proof -
    from that(1,2) have "nat (user_id u) < 2 ^ 53" by (simp add: nat_less_iff)
    moreover from that(1,3) have "case suffix of [] \<Rightarrow> True
        | c # cs \<Rightarrow> \<not> digit_value c < 10
                   \<and> (nat (user_id u) = 0 \<longrightarrow> c \<noteq> CHR ''x'' \<and> c \<noteq> CHR ''X'')"
      by (auto simp add: digit_value_less_10 split: list.splits)
    ultimately have "parseInt (decimal (nat (user_id u)) @ suffix) = Num (of_nat (nat (user_id u)))"
      by (rule parseInt_decimal_prefix)
    with that(1) show ?thesis by simp
  qed
  show ?thesis
    using prefix
    by (auto simp add: requireOwnership_def ToString_def parseInt_5abc parseInt_undefined)
qed

theorem requireOwnership_passes_iff_parseInt_witness:
  "requireOwnership ''id''
     \<lparr>user = Some \<lparr>user_id = 5, user_role = ''user''\<rparr>, params = [(''id'', ''5abc'')]\<rparr> = Next
 \<and> parseInt (ToString (map_of [(''id'', ''5abc'')] ''id'')) = Num (of_int 5)
 \<and> requireOwnership ''id''
     \<lparr>user = Some \<lparr>user_id = 5, user_role = ''user''\<rparr>, params = []\<rparr> =
     Send (Response 403 ''Access denied'' ''You can only access your own resources'' None)
 \<and> requireOwnership ''id''
     \<lparr>user = Some \<lparr>user_id = 5, user_role = ''user''\<rparr>, params = [(''id'', ''abc'')]\<rparr> =
     Send (Response 403 ''Access denied'' ''You can only access your own resources'' None)
 \<and> requireOwnership ''id''
     \<lparr>user = Some \<lparr>user_id = 5, user_role = ''user''\<rparr>, params = [(''id'', ''5/edit'')]\<rparr>
     = Next"
proof -
  let ?u = "\<lparr>user_id = 5, user_role = ''user''\<rparr>"
  have a: "requireOwnership ''id'' \<lparr>user = Some ?u, params = [(''id'', ''5abc'')]\<rparr> = Next"
    using requireOwnership_passes_iff_parseInt
      [where req = "\<lparr>user = Some ?u, params = [(''id'', ''5abc'')]\<rparr>"
         and u = ?u and idParam = "''id''"]
    by (simp add: ToString_def parseInt_5abc)
  have b: "requireOwnership ''id'' \<lparr>user = Some ?u, params = []\<rparr> =
     Send (Response 403 ''Access denied'' ''You can only access your own resources'' None)"
    using requireOwnership_passes_iff_parseInt
      [where req = "\<lparr>user = Some ?u, params = []\<rparr>" and u = ?u and idParam = "''id''"]
    by simp
  have c: "requireOwnership ''id'' \<lparr>user = Some ?u, params = [(''id'', ''abc'')]\<rparr> =
     Send (Response 403 ''Access denied'' ''You can only access your own resources'' None)"
    using requireOwnership_passes_iff_parseInt
      [where req = "\<lparr>user = Some ?u, params = [(''id'', ''abc'')]\<rparr>"
         and u = ?u and idParam = "''id''"]
    by (simp add: ToString_def parseInt_abc)
  have "\<not> is_digit (CHR ''/'')" by (simp add: is_digit_def)
  then have d: "requireOwnership ''id'' \<lparr>user = Some ?u, params = [(''id'', ''5/edit'')]\<rparr>
      = Next"
    using requireOwnership_passes_iff_parseInt
      [where req = "\<lparr>user = Some ?u, params = [(''id'', ''5/edit'')]\<rparr>"
         and u = ?u and idParam = "''id''" and suffix = "''/edit''"]
    by (simp add: decimal_5)
  show ?thesis using a b c d by (simp add: ToString_def parseInt_5abc)
qed

subsection \<open>The size-string parser\<close>

lemma list_all_takeWhile: "list_all P (takeWhile P xs)"
  by (induction xs) simp_all

lemma size_match_in_grammar:
  assumes "size_match s = Some r"
  shows "size_grammar s"
proof -
  define ds where "ds = takeWhile is_digit s"
  define r1 where "r1 = dropWhile is_digit s"
  define fr where "fr =
    (case r1 of c # r \<Rightarrow> if c = CHR ''.'' \<and> takeWhile is_digit r \<noteq> []
                        then c # takeWhile is_digit r else []
     | [] \<Rightarrow> [])"
  define r2 where "r2 =
    (case r1 of c # r \<Rightarrow> if c = CHR ''.'' \<and> takeWhile is_digit r \<noteq> []
                        then dropWhile is_digit r else r1
     | [] \<Rightarrow> r1)"
  define ws where "ws = takeWhile is_white_space r2"
  define r3 where "r3 = dropWhile is_white_space r2"
  define us where "us = takeWhile is_lower_letter r3"
  have split1: "s = ds @ r1" by (simp add: ds_def r1_def)
  have split2: "r1 = fr @ r2"
    by (cases r1) (simp_all add: fr_def r2_def)
  have split3: "r2 = ws @ r3" by (simp add: ws_def r3_def)
  have pair: "(case r1 of c # r \<Rightarrow> if c = CHR ''.'' \<and> takeWhile is_digit r \<noteq> []
                        then (ds @ c # takeWhile is_digit r, dropWhile is_digit r) else (ds, r1)
               | [] \<Rightarrow> (ds, r1)) = (ds @ fr, r2)"
    by (cases r1) (simp_all add: fr_def r2_def)
  from assms have ne: "ds \<noteq> []"
    by (auto simp add: size_match_def Let_def ds_def split: if_splits)
  from assms ne have "dropWhile is_lower_letter r3 = []"
    unfolding size_match_def Let_def ds_def [symmetric] r1_def [symmetric] pair
    by (simp add: r3_def split: if_splits)
  then have split4: "r3 = us"
    unfolding us_def by (metis takeWhile_dropWhile_id append_Nil2)
  have "s = ds @ fr @ ws @ us"
    using split1 split2 split3 split4 by simp
  moreover have "list_all is_digit ds" by (simp add: ds_def list_all_takeWhile)
  moreover have "fr = [] \<or> (\<exists>fs. fr = CHR ''.'' # fs \<and> fs \<noteq> [] \<and> list_all is_digit fs)"
    by (cases r1) (auto simp add: fr_def list_all_takeWhile)
  moreover have "list_all is_white_space ws" by (simp add: ws_def list_all_takeWhile)
  moreover have "list_all is_lower_letter us" by (simp add: us_def list_all_takeWhile)
  ultimately show ?thesis
    unfolding size_grammar_def using ne by blast
qed

lemma size_grammar_starts_with_digit:
  "size_grammar s \<Longrightarrow> \<exists>c r. s = c # r \<and> is_digit c"
  unfolding size_grammar_def by (auto simp add: neq_Nil_conv)

lemma not_a_size_outside_grammar: "\<not> size_grammar (toLowerCase ''not-a-size'')"
proof
  assume "size_grammar (toLowerCase ''not-a-size'')"
  then obtain c r where "toLowerCase ''not-a-size'' = c # r" and "is_digit c"
    using size_grammar_starts_with_digit by blast
  then show False
    by (auto simp add: toLowerCase_def lower_char_def is_digit_def Let_def)
qed

lemma parseSize_outside_grammar:
  "\<not> size_grammar (toLowerCase s) \<Longrightarrow> parseSize s = Num 0"
  using size_match_in_grammar [of "toLowerCase s"]
  by (cases "size_match (toLowerCase s)") (auto simp add: parseSize_def)


lemma parseSize_10mb: "parseSize ''10mb'' = Num (10 * 1024 * 1024)"
  by code_simp

lemma parseSize_not_a_size: "parseSize ''not-a-size'' = Num 0"
  by code_simp

lemma digit_not_letter:
  assumes "is_digit c"
  shows "lower_char c = c \<and> \<not> is_lower_letter c \<and> c \<noteq> CHR ''.''"
  using is_digit_cases [OF assms] by (auto simp add: lower_char_def is_lower_letter_def)

lemma lower_letter_is_plain:
  assumes "is_lower_letter c"
  shows "lower_char c = c \<and> \<not> is_digit c \<and> \<not> is_white_space c \<and> c \<noteq> CHR ''.''"
proof -
  from assms have range: "97 \<le> (of_char c :: nat) \<and> (of_char c :: nat) \<le> 122"
    by (simp add: is_lower_letter_def Let_def)
  then have "lower_char c = c" and "\<not> is_digit c"
    by (simp_all add: lower_char_def is_digit_def Let_def)
  moreover have "\<not> is_white_space c"
  proof
    assume "is_white_space c"
    then have "(of_char c :: nat) \<in> {9, 10, 11, 12, 13, 32, 160}"
      by (auto simp add: is_white_space_def)
    with range show False by auto
  qed
  moreover have "c \<noteq> CHR ''.''" using range by auto
  ultimately show ?thesis by simp
qed

lemma toLowerCase_fixed: "list_all (\<lambda>c. lower_char c = c) s \<Longrightarrow> toLowerCase s = s"
  by (induction s) (simp_all add: toLowerCase_def)

lemma dropWhile_all: "list_all P xs \<Longrightarrow> dropWhile P (xs @ ys) = dropWhile P ys"
  by (induction xs) simp_all

lemma size_match_decimal_unit:
  assumes unit: "unit \<noteq> []" "list_all is_lower_letter unit"
  shows "size_match (decimal n @ unit) = Some (decimal n, Some unit)"
proof -
  obtain c cs where u: "unit = c # cs" using unit(1) by (cases unit) auto
  with unit(2) have c: "is_lower_letter c" by simp
  note plain = lower_letter_is_plain [OF c]
  have digits: "list_all is_digit (decimal n)" and ne: "decimal n \<noteq> []"
    using decimal_digits by simp_all
  have ds: "takeWhile is_digit (decimal n @ unit) = decimal n"
    using digits plain u by (intro takeWhile_prefix) simp_all
  have r1: "dropWhile is_digit (decimal n @ unit) = unit"
    using digits plain u by (simp add: dropWhile_all)
  have us: "takeWhile is_lower_letter unit = unit" "dropWhile is_lower_letter unit = []"
    using unit(2) by (simp_all add: list_all_iff)
  have ws: "dropWhile is_white_space unit = unit" using plain u by simp
  have pair: "(case unit of
                 d # r \<Rightarrow>
                   if d = CHR ''.'' \<and> takeWhile is_digit r \<noteq> []
                   then (decimal n @ d # takeWhile is_digit r, dropWhile is_digit r)
                   else (decimal n, unit)
               | [] \<Rightarrow> (decimal n, unit)) = (decimal n, unit)"
    using plain u by simp
  show ?thesis
    using ne unit
    by (simp add: size_match_def Let_def ds r1 pair ws us list_all_iff)
qed

lemma parseFloat_decimal: "n < 2 ^ 53 \<Longrightarrow> parseFloat (decimal n) = Num (of_nat n)"
proof -
  assume small: "n < 2 ^ 53"
  have whole: "takeWhile is_digit (decimal n) = decimal n"
    and rest: "dropWhile is_digit (decimal n) = []"
    using decimal_digits [of n] by (simp_all add: list_all_iff)
  have "radix_value 10 [] = 0" by (simp add: radix_value_def)
  then have "parseFloat (decimal n) = toDouble (of_int (int n))"
    unfolding parseFloat_def Let_def whole rest by (simp add: radix_value_decimal)
  with small show ?thesis using toDouble_of_int [of "int n"] by simp
qed

lemma units_entries:
  assumes "(unit, factor) \<in> set units"
  shows "unit \<noteq> [] \<and> list_all is_lower_letter unit \<and> get_property units unit = Own factor
       \<and> (\<exists>k. 0 < k \<and> factor = of_int k)"
proof -
  have "(1024::rat) = of_int 1024" "(1048576::rat) = of_int 1048576"
    "(1073741824::rat) = of_int 1073741824" "(1::rat) = of_int 1"
    by simp_all
  then have "\<exists>k. 0 < k \<and> factor = of_int k"
    using assms by (auto simp add: units_def)
  then show ?thesis
    using assms by (auto simp add: units_def get_property_def is_lower_letter_def)
qed

lemma parseSize_decimal_unit:
  assumes table: "(unit, factor) \<in> set units" and small: "of_nat n * factor < 2 ^ 53"
  shows "parseSize (decimal n @ unit) = Num (of_nat n * factor)"
proof -
  from units_entries [OF table] obtain k where unit: "unit \<noteq> []" "list_all is_lower_letter unit"
    and own: "get_property units unit = Own factor" and k: "0 < k" "factor = of_int k"
    by blast
  have "list_all (\<lambda>c. lower_char c = c) (decimal n @ unit)"
    using decimal_digits [of n] unit(2) digit_not_letter lower_letter_is_plain
    by (auto simp add: list_all_iff)
  then have lower: "toLowerCase (decimal n @ unit) = decimal n @ unit"
    by (rule toLowerCase_fixed)
  from small k(2) have "(of_int (int n * k) :: rat) < of_int (2 ^ 53)" by simp
  then have prod: "int n * k < 2 ^ 53" by (simp only: of_int_less_iff)
  have "int n \<le> int n * k" using k(1) by (simp add: mult_le_cancel_left1)
  with prod have "int n < int (2 ^ 53)" by simp
  then have n_small: "n < 2 ^ 53" by (simp only: of_nat_less_iff)
  have "times (parseFloat (decimal n)) factor = toDouble (of_int (int n * k))"
    using n_small by (simp add: parseFloat_decimal times_def k(2))
  also have "\<dots> = Num (of_int (int n * k))"
  proof (rule toDouble_of_int)
    have "0 \<le> int n * k" using k(1) by simp
    with prod show "\<bar>int n * k\<bar> < 2 ^ 53" by simp
  qed
  finally have "times (parseFloat (decimal n)) factor = Num (of_nat n * factor)"
    by (simp add: k(2))
  then show ?thesis
    by (simp add: parseSize_def lower size_match_decimal_unit [OF unit] own)
qed

text \<open>
  C8: with the unit table \<open>{b: 1, kb: 1024, mb: 1024\<^sup>2, gb: 1024\<^sup>3}\<close>, \<open>parseSize\<close> maps a
  decimal number followed by a unit of the table to the number times the unit's factor
  (as long as the product is below \<open>2\<^sup>5\<^sup>3\<close>, where doubles are exact), "10mb" to exactly
  \<open>10 \<times> 1024 \<times> 1024\<close>, and every string outside the size grammar, such as "not-a-size",
  to 0.
\<close>

theorem parseSize_units_and_fallback:
  "units = [(''b'', 1), (''kb'', 1024), (''mb'', 1024 * 1024), (''gb'', 1024 * 1024 * 1024)]
 \<and> ((unit, factor) \<in> set units \<and> of_nat n * factor < 2 ^ 53 \<longrightarrow>
      parseSize (decimal n @ unit) = Num (of_nat n * factor))
 \<and> parseSize ''10mb'' = Num (10 * 1024 * 1024)
 \<and> (\<not> size_grammar (toLowerCase s) \<longrightarrow> parseSize s = Num 0)
 \<and> \<not> size_grammar (toLowerCase ''not-a-size'')
 \<and> parseSize ''not-a-size'' = Num 0"
  using parseSize_outside_grammar [of s] not_a_size_outside_grammar
    parseSize_decimal_unit [of unit factor n]
  by (simp add: units_def parseSize_10mb parseSize_not_a_size)

lemma decimal_512: "decimal 512 = ''512''"
  by code_simp

theorem parseSize_units_and_fallback_witness:
  "\<not> size_grammar (toLowerCase ''ten MB'') \<and> parseSize ''ten MB'' = Num 0
 \<and> parseSize ''512kb'' = Num 524288"
proof -
  have outside: "\<not> size_grammar (toLowerCase ''ten MB'')"
  proof
    assume "size_grammar (toLowerCase ''ten MB'')"
    then obtain c r where "toLowerCase ''ten MB'' = c # r" and "is_digit c"
      using size_grammar_starts_with_digit by blast
    then show False
      by (auto simp add: toLowerCase_def lower_char_def is_digit_def Let_def)
  qed
  then have zero: "parseSize ''ten MB'' = Num 0"
    using parseSize_units_and_fallback [where s = "''ten MB''"] by blast
  have "(''kb'', 1024) \<in> set units \<and> of_nat 512 * (1024::rat) < 2 ^ 53"
    by (simp add: units_def)
  then have "parseSize (decimal 512 @ ''kb'') = Num (of_nat 512 * 1024)"
    using parseSize_units_and_fallback [where unit = "''kb''" and factor = 1024 and n = 512]
    by blast
  then have "parseSize ''512kb'' = Num 524288" by (simp add: decimal_512)
  with outside zero show ?thesis by simp
qed

subsection \<open>The suspicious activity detector\<close>

lemma search_iff:
  "search P seen s \<longleftrightarrow> (\<exists>pre rest. s = pre @ rest \<and> P (rev pre @ seen) rest)"
proof (induction s arbitrary: seen)
  case Nil
  then show ?case by simp
next
  case (Cons c cs)
  show ?case
  proof
    assume "search P seen (c # cs)"
    then consider "P seen (c # cs)" | "search P (c # seen) cs" by auto
    then show "\<exists>pre rest. c # cs = pre @ rest \<and> P (rev pre @ seen) rest"
    proof cases
      case 1
      then have "c # cs = [] @ (c # cs) \<and> P (rev [] @ seen) (c # cs)" by simp
      then show ?thesis by blast
    next
      case 2
      then obtain pre rest where "cs = pre @ rest" and "P (rev pre @ c # seen) rest"
        using Cons.IH by blast
      then have "c # cs = (c # pre) @ rest \<and> P (rev (c # pre) @ seen) rest" by simp
      then show ?thesis by blast
    qed
  next
    assume "\<exists>pre rest. c # cs = pre @ rest \<and> P (rev pre @ seen) rest"
    then obtain pre rest where split: "c # cs = pre @ rest" and hit: "P (rev pre @ seen) rest"
      by blast
    show "search P seen (c # cs)"
    proof (cases pre)
      case Nil
      with split hit have "P seen (c # cs)" by simp
      then show ?thesis by simp
    next
      case (Cons d pre')
      with split hit have "cs = pre' @ rest" and "P (rev pre' @ c # seen) rest" by simp_all
      then have "search P (c # seen) cs" using Cons.IH by blast
      then show ?thesis by simp
    qed
  qed
qed

lemma checkValue_all_strings:
  "checkObject v = (case v of JString str \<Rightarrow> list_ex (\<lambda>c. checkString [c]) str
                     | other \<Rightarrow> list_ex checkString (all_strings other))"
  "checkValue v = list_ex checkString (all_strings v)"
  "checkProperties props = list_ex checkString (concat (map (\<lambda>p. all_strings (snd p)) props))"
  "checkElements elems = list_ex checkString (concat (map all_strings elems))"
  by (induction v and v and props and elems
      rule: checkObject_checkValue_checkProperties_checkElements.induct)
    (auto simp add: list_ex_iff)

lemma checkObject_contained:
  "list_ex checkString (contained_strings v) \<Longrightarrow> checkObject v"
  by (cases v) (simp_all add: contained_strings_def checkValue_all_strings(1))

lemma checkObject_params:
  "checkObject (params_object ps) \<longleftrightarrow> list_ex (\<lambda>p. checkString (snd p)) ps"
  by (simp add: params_object_def checkValue_all_strings(3) list_ex_iff split_beta)


lemma starts_with_iff: "starts_with lit rest \<longleftrightarrow> (\<exists>post. rest = lit @ post)"
proof
  assume "starts_with lit rest"
  then have "rest = lit @ drop (length lit) rest"
    unfolding starts_with_def by (metis append_take_drop_id)
  then show "\<exists>post. rest = lit @ post" ..
next
  assume "\<exists>post. rest = lit @ post"
  then show "starts_with lit rest" by (auto simp add: starts_with_def)
qed

lemma starts_with_ci_iff:
  "starts_with_ci lit rest \<longleftrightarrow> (\<exists>mid post. rest = mid @ post \<and> map ascii_lower mid = lit)"
proof
  assume "starts_with_ci lit rest"
  then have "rest = take (length lit) rest @ drop (length lit) rest
           \<and> map ascii_lower (take (length lit) rest) = lit"
    by (simp add: starts_with_ci_def)
  then show "\<exists>mid post. rest = mid @ post \<and> map ascii_lower mid = lit" by blast
next
  assume "\<exists>mid post. rest = mid @ post \<and> map ascii_lower mid = lit"
  then obtain mid post where rest: "rest = mid @ post" and mid: "map ascii_lower mid = lit"
    by blast
  from mid have "length mid = length lit" by (metis length_map)
  with rest mid show "starts_with_ci lit rest" by (simp add: starts_with_ci_def)
qed

lemma metacharacter_pattern:
  "list_ex (\<lambda>c. c \<in> set markup_metacharacters) s \<longleftrightarrow> contains_metacharacter s"
  by (auto simp add: list_ex_iff contains_metacharacter_def)

lemma path_traversal_pattern:
  "search (\<lambda>seen rest. starts_with ''../'' rest \<or> starts_with [CHR ''.'', CHR ''.'', CHR 0x5C] rest) [] s
     \<longleftrightarrow> contains_path_traversal s"
  unfolding search_iff starts_with_iff contains_path_traversal_def by auto

lemma script_keyword_pattern:
  "list_ex (\<lambda>kw. search (\<lambda>seen rest. starts_with_ci kw rest) [] s) script_keywords
     \<longleftrightarrow> contains_script_keyword s"
  unfolding search_iff starts_with_ci_iff contains_script_keyword_def list_ex_iff
  by (metis append.assoc)


lemma ascii_lower_letter_is_word: "is_lower_letter (ascii_lower c) \<Longrightarrow> is_word_char c"
  by (auto simp add: is_lower_letter_def ascii_lower_def is_word_char_def Let_def
      split: if_splits)

lemma sql_keywords_are_letters:
  "kw \<in> set sql_keywords \<Longrightarrow> kw \<noteq> [] \<and> list_all is_lower_letter kw"
  by (auto simp add: sql_keywords_def is_lower_letter_def)

lemma keyword_match_is_word:
  assumes "kw \<in> set sql_keywords" and "map ascii_lower mid = kw"
  shows "mid \<noteq> [] \<and> is_word_char (hd mid) \<and> is_word_char (last mid)"
proof -
  from assms sql_keywords_are_letters [of kw]
  have ne: "mid \<noteq> []" and letters: "list_all is_lower_letter (map ascii_lower mid)"
    by auto
  from letters have "\<forall>c \<in> set mid. is_word_char c"
    by (auto simp add: list_all_iff ascii_lower_letter_is_word)
  with ne show ?thesis by simp
qed

lemma word_boundary_before_word:
  "rest \<noteq> [] \<Longrightarrow> is_word_char (hd rest) \<Longrightarrow>
     word_boundary (rev pre) rest \<longleftrightarrow> (pre = [] \<or> \<not> is_word_char (last pre))"
  by (cases rest; cases pre rule: rev_cases) (simp_all add: word_boundary_def)

lemma word_boundary_after_word:
  "mid \<noteq> [] \<Longrightarrow> is_word_char (last mid) \<Longrightarrow>
     word_boundary (rev mid @ seen) post \<longleftrightarrow> (post = [] \<or> \<not> is_word_char (hd post))"
  by (cases post; cases mid rule: rev_cases) (simp_all add: word_boundary_def)

lemma whole_word_ci_iff:
  assumes kw: "kw \<in> set sql_keywords"
  shows "whole_word_ci kw (rev pre) rest \<longleftrightarrow>
           (\<exists>mid post. rest = mid @ post \<and> map ascii_lower mid = kw
              \<and> (pre = [] \<or> \<not> is_word_char (last pre))
              \<and> (post = [] \<or> \<not> is_word_char (hd post)))"
proof
  assume whole: "whole_word_ci kw (rev pre) rest"
  define mid where "mid = take (length kw) rest"
  define post where "post = drop (length kw) rest"
  have rest: "rest = mid @ post" by (simp add: mid_def post_def)
  from whole have lower: "map ascii_lower mid = kw"
    by (simp add: whole_word_ci_def starts_with_ci_def mid_def)
  note word = keyword_match_is_word [OF kw lower]
  from word rest have "rest \<noteq> []" and "is_word_char (hd rest)" by simp_all
  with whole have before: "pre = [] \<or> \<not> is_word_char (last pre)"
    by (simp add: whole_word_ci_def word_boundary_before_word)
  from whole have "word_boundary (rev mid @ rev pre) post"
    by (simp add: whole_word_ci_def mid_def post_def)
  with word have "post = [] \<or> \<not> is_word_char (hd post)"
    by (simp add: word_boundary_after_word)
  with rest lower before
  show "\<exists>mid post. rest = mid @ post \<and> map ascii_lower mid = kw
          \<and> (pre = [] \<or> \<not> is_word_char (last pre))
          \<and> (post = [] \<or> \<not> is_word_char (hd post))"
    by blast
next
  assume "\<exists>mid post. rest = mid @ post \<and> map ascii_lower mid = kw
            \<and> (pre = [] \<or> \<not> is_word_char (last pre))
            \<and> (post = [] \<or> \<not> is_word_char (hd post))"
  then obtain mid post where rest: "rest = mid @ post" and lower: "map ascii_lower mid = kw"
    and before: "pre = [] \<or> \<not> is_word_char (last pre)"
    and after: "post = [] \<or> \<not> is_word_char (hd post)"
    by blast
  note word = keyword_match_is_word [OF kw lower]
  from lower have len: "length mid = length kw" by (metis length_map)
  from word rest have "rest \<noteq> []" and "is_word_char (hd rest)" by simp_all
  with before have "word_boundary (rev pre) rest"
    by (simp add: word_boundary_before_word)
  moreover from rest lower len have "starts_with_ci kw rest"
    by (simp add: starts_with_ci_def)
  moreover from word after have "word_boundary (rev mid @ rev pre) post"
    by (simp add: word_boundary_after_word)
  ultimately show "whole_word_ci kw (rev pre) rest"
    using rest len by (simp add: whole_word_ci_def)
qed

lemma sql_keyword_pattern:
  "list_ex (\<lambda>kw. search (whole_word_ci kw) [] s) sql_keywords \<longleftrightarrow> contains_sql_keyword s"
proof -
  have "search (whole_word_ci kw) [] s \<longleftrightarrow>
          (\<exists>pre mid post. s = pre @ mid @ post \<and> map ascii_lower mid = kw
              \<and> (pre = [] \<or> \<not> is_word_char (last pre))
              \<and> (post = [] \<or> \<not> is_word_char (hd post)))"
    if "kw \<in> set sql_keywords" for kw
    unfolding search_iff using whole_word_ci_iff [OF that] by auto
  then show ?thesis
    unfolding list_ex_iff contains_sql_keyword_def by blast
qed

lemma checkString_iff_threat: "checkString s \<longleftrightarrow> threat s"
  unfolding checkString_def suspiciousPatterns_def threat_def
  by (simp add: metacharacter_pattern sql_keyword_pattern path_traversal_pattern
      script_keyword_pattern)


lemma threat_not_empty: "threat s \<Longrightarrow> s \<noteq> []"
  by (auto simp add: threat_def contains_metacharacter_def contains_sql_keyword_def
      contains_path_traversal_def contains_script_keyword_def sql_keywords_def
      script_keywords_def)

lemma checkObject_of_contained:
  "obj = Some v \<Longrightarrow> s \<in> set (contained_strings v) \<Longrightarrow> threat s \<Longrightarrow> checkObject_of obj"
  using checkObject_contained [of v]
  by (auto simp add: checkObject_of_def list_ex_iff checkString_iff_threat)

lemma checkHeader_threat: "h = Some s \<Longrightarrow> threat s \<Longrightarrow> checkHeader h"
  by (simp add: checkHeader_def checkString_iff_threat threat_not_empty)

lemma checkObject_params_threat:
  "(key, s) \<in> set ps \<Longrightarrow> threat s \<Longrightarrow> checkObject (params_object ps)"
  by (force simp add: checkObject_params list_ex_iff checkString_iff_threat)

lemma checkString_drop_table:
  "checkString (CHR 0x27 # ''; DROP TABLE users; --'') = True"
  by code_simp

lemma checkString_hello_world: "checkString ''hello world'' = False"
  by code_simp

text \<open>
  C2: a request whose body, query or params contains, at any nesting depth, a string
  that matches a threat pattern, or whose User-Agent or Referer header matches one, is
  answered 400 "Request contains suspicious content" and is not passed on. A body field
  \<open>'; DROP TABLE users; --\<close> is rejected with 400; the body \<open>{"name": "hello world"}\<close>
  passes.
\<close>

theorem suspiciousActivityDetector_rejects_threats:
  "((\<exists>v s. body req = Some v \<and> s \<in> set (contained_strings v) \<and> threat s)
    \<or> (\<exists>v s. query req = Some v \<and> s \<in> set (contained_strings v) \<and> threat s)
    \<or> (\<exists>key s. (key, s) \<in> set (params req) \<and> threat s)
    \<or> (\<exists>s. user_agent req = Some s \<and> threat s)
    \<or> (\<exists>s. referer req = Some s \<and> threat s)
    \<longrightarrow> suspiciousActivityDetector req =
          Send (Response 400 ''Bad Request'' ''Request contains suspicious content'' None)
      \<and> suspiciousActivityDetector req \<noteq> Next)
 \<and> suspiciousActivityDetector
      \<lparr>user = None, params = [], ip = ''203.0.113.7'', query = Some (JObject []),
       body = Some (JObject [(''comment'', JString (CHR 0x27 # ''; DROP TABLE users; --''))]),
       user_agent = None, referer = None\<rparr> =
     Send (Response 400 ''Bad Request'' ''Request contains suspicious content'' None)
 \<and> suspiciousActivityDetector
      \<lparr>user = None, params = [], ip = ''203.0.113.7'', query = Some (JObject []),
       body = Some (JObject [(''name'', JString ''hello world'')]),
       user_agent = None, referer = None\<rparr> = Next"
proof -
  have flagged: "suspiciousActivityDetector req =
          Send (Response 400 ''Bad Request'' ''Request contains suspicious content'' None)"
    if "checkObject_of (body req) \<or> checkObject_of (query req)
        \<or> checkObject (params_object (params req))
        \<or> checkHeader (user_agent req) \<or> checkHeader (referer req)"
    using that unfolding suspiciousActivityDetector_def Let_def by presburger
  have general:
    "(\<exists>v s. body req = Some v \<and> s \<in> set (contained_strings v) \<and> threat s)
      \<or> (\<exists>v s. query req = Some v \<and> s \<in> set (contained_strings v) \<and> threat s)
      \<or> (\<exists>key s. (key, s) \<in> set (params req) \<and> threat s)
      \<or> (\<exists>s. user_agent req = Some s \<and> threat s)
      \<or> (\<exists>s. referer req = Some s \<and> threat s)
      \<longrightarrow> suspiciousActivityDetector req =
            Send (Response 400 ''Bad Request'' ''Request contains suspicious content'' None)
        \<and> suspiciousActivityDetector req \<noteq> Next"
  proof (intro impI, elim disjE exE conjE)
    fix v s
    assume "body req = Some v" and "s \<in> set (contained_strings v)" and "threat s"
    then have "checkObject_of (body req)" by (rule checkObject_of_contained)
    then show "suspiciousActivityDetector req =
            Send (Response 400 ''Bad Request'' ''Request contains suspicious content'' None)
        \<and> suspiciousActivityDetector req \<noteq> Next"
      using flagged by simp
  next
    fix v s
    assume "query req = Some v" and "s \<in> set (contained_strings v)" and "threat s"
    then have "checkObject_of (query req)" by (rule checkObject_of_contained)
    then show "suspiciousActivityDetector req =
            Send (Response 400 ''Bad Request'' ''Request contains suspicious content'' None)
        \<and> suspiciousActivityDetector req \<noteq> Next"
      using flagged by simp
  next
    fix key s
    assume "(key, s) \<in> set (params req)" and "threat s"
    then have "checkObject (params_object (params req))" by (rule checkObject_params_threat)
    then show "suspiciousActivityDetector req =
            Send (Response 400 ''Bad Request'' ''Request contains suspicious content'' None)
        \<and> suspiciousActivityDetector req \<noteq> Next"
      using flagged by simp
  next
    fix s
    assume "user_agent req = Some s" and "threat s"
    then have "checkHeader (user_agent req)" by (rule checkHeader_threat)
    then show "suspiciousActivityDetector req =
            Send (Response 400 ''Bad Request'' ''Request contains suspicious content'' None)
        \<and> suspiciousActivityDetector req \<noteq> Next"
      using flagged by simp
  next
    fix s
    assume "referer req = Some s" and "threat s"
    then have "checkHeader (referer req)" by (rule checkHeader_threat)
    then show "suspiciousActivityDetector req =
            Send (Response 400 ''Bad Request'' ''Request contains suspicious content'' None)
        \<and> suspiciousActivityDetector req \<noteq> Next"
      using flagged by simp
  qed
  have rejected: "suspiciousActivityDetector
      \<lparr>user = None, params = [], ip = ''203.0.113.7'', query = Some (JObject []),
       body = Some (JObject [(''comment'', JString (CHR 0x27 # ''; DROP TABLE users; --''))]),
       user_agent = None, referer = None\<rparr> =
     Send (Response 400 ''Bad Request'' ''Request contains suspicious content'' None)"
    by (simp add: suspiciousActivityDetector_def checkObject_of_def checkString_drop_table)
  have passed: "suspiciousActivityDetector
      \<lparr>user = None, params = [], ip = ''203.0.113.7'', query = Some (JObject []),
       body = Some (JObject [(''name'', JString ''hello world'')]),
       user_agent = None, referer = None\<rparr> = Next"
    by (simp add: suspiciousActivityDetector_def checkObject_of_def checkHeader_def
        params_object_def checkString_hello_world)
  from general rejected passed show ?thesis by blast
qed

theorem suspiciousActivityDetector_rejects_threats_witness:
  "suspiciousActivityDetector
     \<lparr>user = None, params = [], ip = ''198.51.100.4'',
      query = Some (JObject [(''filter'', JArray [JNumber 1, JString ''1 UNION SELECT 2''])]),
      body = None, user_agent = None, referer = None\<rparr> =
     Send (Response 400 ''Bad Request'' ''Request contains suspicious content'' None)
 \<and> suspiciousActivityDetector
     \<lparr>user = None, params = [], ip = ''198.51.100.4'', query = None, body = None,
      user_agent = Some ''Mozilla/5.0 (X11; Linux x86_64)'', referer = None\<rparr> \<noteq> Next"
proof -
  let ?q = "JObject [(''filter'', JArray [JNumber 1, JString ''1 UNION SELECT 2''])]"
  let ?r1 = "\<lparr>user = None, params = [], ip = ''198.51.100.4'', query = Some ?q,
      body = None, user_agent = None, referer = None\<rparr>"
  let ?r2 = "\<lparr>user = None, params = [], ip = ''198.51.100.4'', query = None, body = None,
      user_agent = Some ''Mozilla/5.0 (X11; Linux x86_64)'', referer = None\<rparr>"
  have "checkString ''1 UNION SELECT 2'' = True" by code_simp
  then have sql: "threat ''1 UNION SELECT 2''" by (simp add: checkString_iff_threat)
  have "''1 UNION SELECT 2'' \<in> set (contained_strings ?q)"
    by (simp add: contained_strings_def)
  with sql have "query ?r1 = Some ?q \<and> ''1 UNION SELECT 2'' \<in> set (contained_strings ?q)
      \<and> threat ''1 UNION SELECT 2''"
    by simp
  then have h1: "\<exists>v s. query ?r1 = Some v \<and> s \<in> set (contained_strings v) \<and> threat s"
    by blast
  have "checkString ''Mozilla/5.0 (X11; Linux x86_64)'' = True" by code_simp
  then have "threat ''Mozilla/5.0 (X11; Linux x86_64)''" by (simp add: checkString_iff_threat)
  then have "user_agent ?r2 = Some ''Mozilla/5.0 (X11; Linux x86_64)''
      \<and> threat ''Mozilla/5.0 (X11; Linux x86_64)''"
    by simp
  then have h2: "\<exists>s. user_agent ?r2 = Some s \<and> threat s" by blast
  from h1 have "suspiciousActivityDetector ?r1 =
      Send (Response 400 ''Bad Request'' ''Request contains suspicious content'' None)"
    using suspiciousActivityDetector_rejects_threats [of ?r1] by blast
  moreover from h2 have "suspiciousActivityDetector ?r2 \<noteq> Next"
    using suspiciousActivityDetector_rejects_threats [of ?r2] by blast
  ultimately show ?thesis by simp
qed

subsection \<open>Rate limiting\<close>

lemma createRateLimiter_fresh:
  "buckets (rate_limit_key req) = None
   \<or> (\<exists>b. buckets (rate_limit_key req) = Some b \<and> windowStart b + w \<le> now) \<Longrightarrow>
   createRateLimiter w m msg now req buckets =
     (Next, buckets(rate_limit_key req \<mapsto> \<lparr>count = 1, windowStart = now\<rparr>))"
  by (auto simp add: createRateLimiter_def rateLimit_def Let_def)

lemma createRateLimiter_counted:
  "buckets (rate_limit_key req) = Some b \<Longrightarrow> now < windowStart b + w \<Longrightarrow>
   createRateLimiter w m msg now req buckets =
     (if m < count b + 1
      then Send (Response 429 ''Rate limit exceeded'' msg (Some (ceil_seconds w)))
      else Next,
      buckets(rate_limit_key req \<mapsto> b\<lparr>count := count b + 1\<rparr>))"
  by (simp add: createRateLimiter_def rateLimit_def Let_def rate_limit_handler_def)

lemma seconds_remaining_le:
  "windowStart b \<le> now \<Longrightarrow> seconds_remaining w b now \<le> ceil_seconds w"
  by (simp add: seconds_remaining_def ceil_seconds_def div_le_mono)

text \<open>
  C3, amended: a request the limiter rejects (the incremented count exceeds the maximum
  inside the current window) is answered 429 with \<open>retryAfter\<close> equal to the length of
  the whole window in seconds, \<open>ceil(windowMs / 1000)\<close>, which is at least the number of
  seconds remaining in the window. For the tier \<open>(windowMs = 60000, max = 3)\<close> the 4th
  request within the window of the first, from the same key, gets 429 with
  \<open>retryAfter = 60\<close>; once the window has elapsed the next request starts a fresh bucket
  with count 1 and proceeds.
\<close>

theorem rate_limiter_rejection:
  "(createRateLimiter w m msg now req buckets = (out, buckets') \<and> out \<noteq> Next \<longrightarrow>
      out = Send (Response 429 ''Rate limit exceeded'' msg (Some (ceil_seconds w)))
    \<and> (\<exists>b. buckets (rate_limit_key req) = Some b \<and> now < windowStart b + w
           \<and> m < count b + 1
           \<and> buckets' = buckets(rate_limit_key req \<mapsto> b\<lparr>count := count b + 1\<rparr>)
           \<and> (windowStart b \<le> now \<longrightarrow> seconds_remaining w b now \<le> ceil_seconds w)))
 \<and> (buckets (rate_limit_key ra) = None
    \<and> rate_limit_key rb = rate_limit_key ra \<and> rate_limit_key rc = rate_limit_key ra
    \<and> rate_limit_key rd = rate_limit_key ra
    \<and> tb < ta + 60000 \<and> tc < ta + 60000 \<and> td < ta + 60000 \<longrightarrow>
      fst (run_limiter (createRateLimiter 60000 3 msg)
             [(ta, ra), (tb, rb), (tc, rc), (td, rd)] buckets) =
        [Next, Next, Next, Send (Response 429 ''Rate limit exceeded'' msg (Some 60))])
 \<and> (buckets (rate_limit_key req) = Some b \<and> windowStart b + w \<le> now \<longrightarrow>
      createRateLimiter w m msg now req buckets =
        (Next, buckets(rate_limit_key req \<mapsto> \<lparr>count = 1, windowStart = now\<rparr>)))"
proof (intro conjI impI)
  assume a: "createRateLimiter w m msg now req buckets = (out, buckets') \<and> out \<noteq> Next"
  show "out = Send (Response 429 ''Rate limit exceeded'' msg (Some (ceil_seconds w)))"
    using a
    by (auto simp add: createRateLimiter_def rateLimit_def Let_def rate_limit_handler_def
        split: option.splits if_splits)
  show "\<exists>b. buckets (rate_limit_key req) = Some b \<and> now < windowStart b + w
           \<and> m < count b + 1
           \<and> buckets' = buckets(rate_limit_key req \<mapsto> b\<lparr>count := count b + 1\<rparr>)
           \<and> (windowStart b \<le> now \<longrightarrow> seconds_remaining w b now \<le> ceil_seconds w)"
    using a seconds_remaining_le
    by (auto simp add: createRateLimiter_def rateLimit_def Let_def rate_limit_handler_def
        split: option.splits if_splits)
next
  assume h: "buckets (rate_limit_key ra) = None
    \<and> rate_limit_key rb = rate_limit_key ra \<and> rate_limit_key rc = rate_limit_key ra
    \<and> rate_limit_key rd = rate_limit_key ra
    \<and> tb < ta + 60000 \<and> tc < ta + 60000 \<and> td < ta + 60000"
  let ?k = "rate_limit_key ra"
  let ?s1 = "buckets(?k \<mapsto> \<lparr>count = 1, windowStart = ta\<rparr>)"
  let ?s2 = "?s1(?k \<mapsto> \<lparr>count = 1 + 1, windowStart = ta\<rparr>)"
  let ?s3 = "?s2(?k \<mapsto> \<lparr>count = 1 + 1 + 1, windowStart = ta\<rparr>)"
  let ?s4 = "?s3(?k \<mapsto> \<lparr>count = 1 + 1 + 1 + 1, windowStart = ta\<rparr>)"
  have s1: "createRateLimiter 60000 3 msg ta ra buckets = (Next, ?s1)"
    using h by (simp add: createRateLimiter_fresh)
  have s2: "createRateLimiter 60000 3 msg tb rb ?s1 = (Next, ?s2)"
    using h createRateLimiter_counted [of ?s1 rb "\<lparr>count = 1, windowStart = ta\<rparr>" tb 60000 3 msg]
    by simp
  have s3: "createRateLimiter 60000 3 msg tc rc ?s2 = (Next, ?s3)"
    using h createRateLimiter_counted [of ?s2 rc "\<lparr>count = 1 + 1, windowStart = ta\<rparr>" tc 60000 3 msg]
    by simp
  have s4: "createRateLimiter 60000 3 msg td rd ?s3 =
      (Send (Response 429 ''Rate limit exceeded'' msg (Some 60)), ?s4)"
    using h createRateLimiter_counted [of ?s3 rd "\<lparr>count = 1 + 1 + 1, windowStart = ta\<rparr>" td 60000 3 msg]
    by (simp add: ceil_seconds_def)
  show "fst (run_limiter (createRateLimiter 60000 3 msg)
             [(ta, ra), (tb, rb), (tc, rc), (td, rd)] buckets) =
        [Next, Next, Next, Send (Response 429 ''Rate limit exceeded'' msg (Some 60))]"
    by (simp only: run_limiter.simps Let_def s1 s2 s3 s4 prod.case fst_conv)
next
  assume "buckets (rate_limit_key req) = Some b \<and> windowStart b + w \<le> now"
  then show "createRateLimiter w m msg now req buckets =
        (Next, buckets(rate_limit_key req \<mapsto> \<lparr>count = 1, windowStart = now\<rparr>))"
    by (simp add: createRateLimiter_fresh)
qed


text \<open>
  C3, as stated: \<open>retryAfter\<close> is the number of seconds remaining in the current window.
  It fails half-way through a window: four requests at 0 s, 1 s, 2 s and 30 s under
  \<open>(windowMs = 60000, max = 3)\<close>; the fourth is answered with \<open>retryAfter = 60\<close> while 30
  seconds of the window remain.
\<close>

theorem retryAfter_is_the_whole_window:
  "fst (run_limiter (createRateLimiter 60000 3 ''slow down'')
         [(0, \<lparr>user = None, params = [], ip = ''203.0.113.7'', query = None, body = None,
               user_agent = None, referer = None\<rparr>),
          (1000, \<lparr>user = None, params = [], ip = ''203.0.113.7'', query = None, body = None,
               user_agent = None, referer = None\<rparr>),
          (2000, \<lparr>user = None, params = [], ip = ''203.0.113.7'', query = None, body = None,
               user_agent = None, referer = None\<rparr>),
          (30000, \<lparr>user = None, params = [], ip = ''203.0.113.7'', query = None, body = None,
               user_agent = None, referer = None\<rparr>)] Map.empty) =
     [Next, Next, Next, Send (Response 429 ''Rate limit exceeded'' ''slow down'' (Some 60))]
 \<and> snd (run_limiter (createRateLimiter 60000 3 ''slow down'')
         [(0, \<lparr>user = None, params = [], ip = ''203.0.113.7'', query = None, body = None,
               user_agent = None, referer = None\<rparr>),
          (1000, \<lparr>user = None, params = [], ip = ''203.0.113.7'', query = None, body = None,
               user_agent = None, referer = None\<rparr>),
          (2000, \<lparr>user = None, params = [], ip = ''203.0.113.7'', query = None, body = None,
               user_agent = None, referer = None\<rparr>),
          (30000, \<lparr>user = None, params = [], ip = ''203.0.113.7'', query = None, body = None,
               user_agent = None, referer = None\<rparr>)] Map.empty)
       ''203.0.113.7:anonymous'' = Some \<lparr>count = 4, windowStart = 0\<rparr>
 \<and> seconds_remaining 60000 \<lparr>count = 4, windowStart = 0\<rparr> 30000 = 30"
  by (simp add: createRateLimiter_def rateLimit_def rate_limit_key_def
      rate_limit_handler_def ceil_seconds_def seconds_remaining_def)

theorem rate_limiter_rejection_witness:
  "fst (run_limiter (createRateLimiter 60000 3 ''slow down'')
         [(5, \<lparr>user = Some \<lparr>user_id = 42, user_role = ''user''\<rparr>, params = [],
               ip = ''203.0.113.7'', query = None, body = None,
               user_agent = None, referer = None\<rparr>),
          (10, \<lparr>user = Some \<lparr>user_id = 42, user_role = ''user''\<rparr>, params = [],
               ip = ''203.0.113.7'', query = None, body = None,
               user_agent = None, referer = None\<rparr>),
          (20, \<lparr>user = Some \<lparr>user_id = 42, user_role = ''user''\<rparr>, params = [],
               ip = ''203.0.113.7'', query = None, body = None,
               user_agent = None, referer = None\<rparr>),
          (60004, \<lparr>user = Some \<lparr>user_id = 42, user_role = ''user''\<rparr>, params = [],
               ip = ''203.0.113.7'', query = None, body = None,
               user_agent = None, referer = None\<rparr>)] Map.empty) =
     [Next, Next, Next, Send (Response 429 ''Rate limit exceeded'' ''slow down'' (Some 60))]
 \<and> fst (createRateLimiter 60000 3 ''slow down'' 60005
        \<lparr>user = Some \<lparr>user_id = 42, user_role = ''user''\<rparr>, params = [],
         ip = ''203.0.113.7'', query = None, body = None, user_agent = None, referer = None\<rparr>
        [''203.0.113.7:42'' \<mapsto> \<lparr>count = 4, windowStart = 5\<rparr>]) = Next
 \<and> fst (createRateLimiter 60000 3 ''slow down'' 60004
        \<lparr>user = Some \<lparr>user_id = 42, user_role = ''user''\<rparr>, params = [],
         ip = ''203.0.113.7'', query = None, body = None, user_agent = None, referer = None\<rparr>
        [''203.0.113.7:42'' \<mapsto> \<lparr>count = 3, windowStart = 5\<rparr>]) =
     Send (Response 429 ''Rate limit exceeded'' ''slow down'' (Some (ceil_seconds 60000)))"
proof -
  let ?r = "\<lparr>user = Some \<lparr>user_id = 42, user_role = ''user''\<rparr>, params = [],
         ip = ''203.0.113.7'', query = None, body = None, user_agent = None, referer = None\<rparr>"
  let ?full = "[''203.0.113.7:42'' \<mapsto> \<lparr>count = 3, windowStart = 5\<rparr>]"
  let ?old = "[''203.0.113.7:42'' \<mapsto> \<lparr>count = 4, windowStart = 5\<rparr>]"
  have key: "rate_limit_key ?r = ''203.0.113.7:42''"
    by code_simp
  obtain out buckets' where
    step: "createRateLimiter 60000 3 ''slow down'' 60004 ?r ?full = (out, buckets')"
    by (cases "createRateLimiter 60000 3 ''slow down'' 60004 ?r ?full")
  then have rejected: "out \<noteq> Next"
    by (auto simp add: createRateLimiter_def rateLimit_def key Let_def)
  have a: "fst (createRateLimiter 60000 3 ''slow down'' 60004 ?r ?full) =
      Send (Response 429 ''Rate limit exceeded'' ''slow down'' (Some (ceil_seconds 60000)))"
    using rate_limiter_rejection
      [where w = 60000 and m = 3 and msg = "''slow down''" and now = 60004 and req = ?r
         and buckets = ?full and out = out and buckets' = buckets']
      step rejected
    by simp
  have b: "fst (run_limiter (createRateLimiter 60000 3 ''slow down'')
         [(5, ?r), (10, ?r), (20, ?r), (60004, ?r)] Map.empty) =
     [Next, Next, Next, Send (Response 429 ''Rate limit exceeded'' ''slow down'' (Some 60))]"
    using rate_limiter_rejection
      [where buckets = Map.empty and ra = ?r and rb = ?r and rc = ?r and rd = ?r
         and ta = 5 and tb = 10 and tc = 20 and td = 60004
         and msg = "''slow down''"]
    by simp
  have c: "fst (createRateLimiter 60000 3 ''slow down'' 60005 ?r ?old) = Next"
    using rate_limiter_rejection
      [where w = 60000 and m = 3 and msg = "''slow down''" and now = 60005 and req = ?r
         and buckets = ?old and b = "\<lparr>count = 4, windowStart = 5\<rparr>"]
    by (simp add: key)
  from a b c show ?thesis by simp
qed


subsection \<open>Input sanitization\<close>












end
